theory Spec2Isabelle
  imports Complex_Main "HOL-Library.Multiset"
begin

section \<open>Values of the Python program\<close>

text \<open>
  The peak engine of \<^verbatim>\<open>spectra_Objects.py\<close> works on numpy arrays of floats and
  on integer index arrays. Floats are modelled as \<^typ>\<open>real\<close> (no rounding, no
  \<^verbatim>\<open>inf\<close>/\<^verbatim>\<open>nan\<close>), integers as \<^typ>\<open>int\<close>. A two-row array
  (\<^verbatim>\<open>spectrum\<close>, \<^verbatim>\<open>ma\<close>) is the list of its columns, so both rows have one
  length, as in numpy. Every exception the program can raise is a value of \<open>pyerr\<close>, and
  a computation that may raise returns \<open>pyerr + 'a\<close>.
\<close>

datatype pyerr =
    IndexError
  | ValueError
  | TypeError
  | UnboundLocalError
  | NonStandingSlope int
  | UnableToDefinePeak int
  | ZeroWidthPeak int
  | InfoLength nat nat
  | HelperError string

type_synonym array2 = "(real \<times> real) list"

text \<open>numpy's \<^verbatim>\<open>a[j]\<close> for an integer \<open>j\<close>: a negative index counts from the end,
  anything outside \<open>-n .. n-1\<close> raises IndexError.\<close>

definition np_valid :: "'a list \<Rightarrow> int \<Rightarrow> bool" where
  "np_valid xs j = (- int (length xs) \<le> j \<and> j < int (length xs))"

definition np_val :: "'a list \<Rightarrow> int \<Rightarrow> 'a" where
  "np_val xs j = xs ! nat (if j < 0 then j + int (length xs) else j)"

definition np_get :: "'a list \<Rightarrow> int \<Rightarrow> pyerr + 'a" where
  "np_get xs j = (if np_valid xs j then Inr (np_val xs j) else Inl IndexError)"

text \<open>Python's \<^verbatim>\<open>a[lo:hi]\<close>: each bound is moved into \<open>0 .. n\<close> (a negative one
  counts from the end first); a slice never raises.\<close>

definition norm_index :: "nat \<Rightarrow> int \<Rightarrow> nat" where
  "norm_index n j = (if j < 0 then nat (max 0 (j + int n)) else min (nat j) n)"

definition py_slice :: "'a list \<Rightarrow> int \<Rightarrow> int \<Rightarrow> 'a list" where
  "py_slice xs lo hi =
     (let l = norm_index (length xs) lo; h = norm_index (length xs) hi
      in take (h - l) (drop l xs))"

section \<open>The entity and its settings\<close>

text \<open>The fields of a \<^verbatim>\<open>Data\<close> instance that the peak engine reads
  (\<^verbatim>\<open>Substance.__init__\<close>, \<^verbatim>\<open>Data.__init__\<close>), and the settings dictionary
  \<^verbatim>\<open>params\<close> (\<^verbatim>\<open>cf.pack()\<close>).\<close>

record entity =
  fullname :: string
  mode :: string
  spectrum :: array2
  spectrum_tof :: array2
  ma :: array2
  mai :: "int list"
  der :: "real list"
  sder :: "real list"

record params =
  dboxes :: real
  maxouterslope :: real
  slopedrop :: real
  prangemax :: int

text \<open>Modelled from the spec: the error sink \<^verbatim>\<open>err\<close>, which the source imports
  from \<^verbatim>\<open>spectra_InitSettings\<close>. \<^verbatim>\<open>err.add(exception, function_name,
  entity_name, candidate_index)\<close> appends one entry to an append-only log.\<close>

type_synonym errsink = "(pyerr \<times> string \<times> string \<times> int) list"

definition err_add :: "pyerr \<Rightarrow> string \<Rightarrow> string \<Rightarrow> int \<Rightarrow> errsink \<Rightarrow> errsink" where
  "err_add e fname ename idx sink = sink @ [(e, fname, ename, idx)]"

text \<open>Sequencing of computations that may raise: the first exception ends the block.\<close>

fun bind_err :: "pyerr + 'a \<Rightarrow> ('a \<Rightarrow> pyerr + 'b) \<Rightarrow> pyerr + 'b" where
  "bind_err (Inl e) f = Inl e"
| "bind_err (Inr v) f = f v"

section \<open>Integrate: Simpson's rule minus a trapezoid background\<close>

text \<open>
  \<^verbatim>\<open>Integrate\<close> calls \<^verbatim>\<open>scipy.integrate.simps(listy, listx)\<close>. The library
  function is modelled here after its implementation for sample points \<open>x\<close> with
  arbitrary spacing and the default \<^verbatim>\<open>even='avg'\<close>: \<^verbatim>\<open>_basic_simps\<close> sums one
  three-point panel for every second index of \<^verbatim>\<open>slice(start, stop, 2)\<close>; for an even
  number of samples \<^verbatim>\<open>simps\<close> averages "Simpson on the first \<open>N - 2\<close> intervals plus a
  trapezoid on the last" with "a trapezoid on the first interval plus Simpson on the
  rest". The slices of \<^verbatim>\<open>_basic_simps\<close> have one length, except for a two-sample input,
  where \<^verbatim>\<open>y[0:-1:2]\<close> has one element and the others none; numpy broadcasts that to an
  empty array, which is what \<open>zip\<close> gives.
\<close>

definition slice2 :: "'a list \<Rightarrow> int \<Rightarrow> int \<Rightarrow> 'a list" where
  "slice2 xs start stop =
     (let l = norm_index (length xs) start; h = norm_index (length xs) stop
      in map (\<lambda>k. xs ! (l + 2 * k)) [0..<(h - l + 1) div 2])"

definition np_diff :: "real list \<Rightarrow> real list" where
  "np_diff x = map (\<lambda>k. x ! (k + 1) - x ! k) [0..<length x - 1]"

definition basic_simps :: "real list \<Rightarrow> int \<Rightarrow> int \<Rightarrow> real list \<Rightarrow> real" where
  "basic_simps y start stop x =
     (let h = np_diff x;
          y0 = slice2 y start stop;
          y1 = slice2 y (start + 1) (stop + 1);
          y2 = slice2 y (start + 2) (stop + 2);
          h0 = slice2 h start stop;
          h1 = slice2 h (start + 1) (stop + 1)
      in sum_list (map (\<lambda>(ya, yb, yc, ha, hb).
             let hsum = ha + hb; hprod = ha * hb; h0divh1 = ha / hb
             in hsum / 6 * (ya * (2 - 1 / h0divh1) + yb * hsum * hsum / hprod
                            + yc * (2 - h0divh1)))
           (zip y0 (zip y1 (zip y2 (zip h0 h1))))))"

definition simps :: "real list \<Rightarrow> real list \<Rightarrow> pyerr + real" where
  "simps y x =
     (let N = length y in
      if length x \<noteq> N then Inl ValueError
      else if N mod 2 = 0 then
        (if N = 0 then Inl IndexError
         else
           let last_dx = x ! (N - 1) - x ! (N - 2);
               val1 = 0.5 * last_dx * (y ! (N - 1) + y ! (N - 2));
               result1 = basic_simps y 0 (int N - 3) x;
               first_dx = x ! 1 - x ! 0;
               val2 = val1 + 0.5 * first_dx * (y ! 1 + y ! 0);
               result2 = result1 + basic_simps y 1 (int N - 2) x
           in Inr (result2 / 2 + val2 / 2))
      else Inr (basic_simps y 0 (int N - 2) x))"

text \<open>
  \<^verbatim>\<open>
  def Integrate(array,iedges):
      listx = array[0,iedges[0]:iedges[1]+1]
      listy = array[1,iedges[0]:iedges[1]+1]
      raw_int = spint.simps(listy,listx)
      background = 0.5*(array[0,iedges[1]]-array[0,iedges[0]])*(array[1,iedges[1]]+array[1,iedges[0]])
      return raw_int-background
  \<close>
\<close>

definition Integrate :: "array2 \<Rightarrow> int \<times> int \<Rightarrow> pyerr + real" where
  "Integrate array iedges =
     (let seg = py_slice array (fst iedges) (snd iedges + 1);
          listx = map fst seg;
          listy = map snd seg
      in case simps listy listx of
           Inl e \<Rightarrow> Inl e
         | Inr raw_int \<Rightarrow>
             (case np_get array (snd iedges) of
                Inl e \<Rightarrow> Inl e
              | Inr (x1, y1) \<Rightarrow>
                  (case np_get array (fst iedges) of
                     Inl e \<Rightarrow> Inl e
                   | Inr (x0, y0) \<Rightarrow> Inr (raw_int - 0.5 * (x1 - x0) * (y1 + y0)))))"

section \<open>Helpers that live in other modules\<close>

text \<open>
  \<^verbatim>\<open>FitBoxes\<close>, \<^verbatim>\<open>InBetween\<close>, \<^verbatim>\<open>E2t\<close>, \<^verbatim>\<open>GetIndex\<close>, \<^verbatim>\<open>Smooth\<close> and
  \<^verbatim>\<open>IndMaxima\<close> are imported from \<^verbatim>\<open>spectra_Basics\<close> and \<^verbatim>\<open>spectra_Finders\<close>,
  and \<^verbatim>\<open>peakattr\<close> from \<^verbatim>\<open>spectra_InitSettings\<close>. The functions below take them
  as parameters, collected in one record; each may raise. \<open>GetIndex2\<close> is
  \<^verbatim>\<open>GetIndex\<close> called on a pair of boundary values (one index for each), as
  \<^verbatim>\<open>computepeak\<close> calls it; the optional second argument of \<^verbatim>\<open>IndMaxima\<close> and of
  \<^verbatim>\<open>E2t\<close> is \<open>None\<close> where the call leaves it out.
\<close>

record externals =
  FitBoxes :: "real list \<Rightarrow> real \<Rightarrow> pyerr + (real list \<times> real)"
  InBetween :: "real list \<Rightarrow> real \<Rightarrow> bool \<Rightarrow> pyerr + (int option \<times> int option)"
  E2t :: "real \<Rightarrow> string option \<Rightarrow> pyerr + real"
  GetIndex :: "real list \<Rightarrow> real list \<Rightarrow> bool \<Rightarrow> pyerr + int list"
  GetIndex2 :: "real list \<Rightarrow> real \<times> real \<Rightarrow> pyerr + (int \<times> int)"
  Smooth :: "array2 \<Rightarrow> int \<Rightarrow> pyerr + array2"
  IndMaxima :: "real list \<Rightarrow> int option \<Rightarrow> pyerr + int list"
  peakattr_size :: nat

section \<open>definepeak: the boundary detector\<close>

text \<open>
  \<^verbatim>\<open>temp1,temp2 = np.unique(fit,return_counts=True)\<close>: the sorted distinct values and
  how often each occurs; \<^verbatim>\<open>np.argmax\<close>: the first index of the largest entry
  (ValueError on an empty array).
\<close>

definition np_unique_counts :: "real list \<Rightarrow> real list \<times> nat list" where
  "np_unique_counts fit = (let u = sort (remdups fit) in (u, map (count_list fit) u))"

definition np_argmax :: "nat list \<Rightarrow> pyerr + nat" where
  "np_argmax cs =
     (if cs = [] then Inl ValueError
      else Inr (length (takeWhile (\<lambda>c. c \<noteq> Max (set cs)) cs)))"

text \<open>
  \<^verbatim>\<open>
  for i in range(1,10):
      fit,boxwidth = FitBoxes(redder,params['dboxes']*i)
      temp1,temp2 = np.unique(fit,return_counts=True)
      if not (temp2==1).all(): break
  outerslope = temp1[np.argmax(temp2)]
  if abs(outerslope) > params['maxouterslope']: outerslope = 0
  \<close>
\<close>

fun outer_loop ::
  "(real list \<Rightarrow> real \<Rightarrow> pyerr + (real list \<times> real)) \<Rightarrow> real list \<Rightarrow> real \<Rightarrow> nat list
     \<Rightarrow> pyerr + (real list \<times> nat list \<times> real)" where
  "outer_loop fitboxes redder db [] = Inl UnboundLocalError"
| "outer_loop fitboxes redder db (i # rest) =
     (case fitboxes redder (db * real i) of
        Inl e \<Rightarrow> Inl e
      | Inr (fit, boxwidth) \<Rightarrow>
          (case np_unique_counts fit of
             (temp1, temp2) \<Rightarrow>
               if \<not> list_all (\<lambda>c. c = 1) temp2 then Inr (temp1, temp2, boxwidth)
               else if rest = [] then Inr (temp1, temp2, boxwidth)
               else outer_loop fitboxes redder db rest))"

definition outer_slope :: "externals \<Rightarrow> params \<Rightarrow> real list \<Rightarrow> pyerr + (real \<times> real)" where
  "outer_slope ext ps redder =
     (case outer_loop (FitBoxes ext) redder (dboxes ps) [1..<10] of
        Inl e \<Rightarrow> Inl e
      | Inr (temp1, temp2, boxwidth) \<Rightarrow>
          (case np_argmax temp2 of
             Inl e \<Rightarrow> Inl e
           | Inr k \<Rightarrow>
               let outerslope = temp1 ! k
               in Inr (if \<bar>outerslope\<bar> > maxouterslope ps then 0 else outerslope, boxwidth)))"

text \<open>
  One pass of the inner loop of \<^verbatim>\<open>definepeak\<close> at index \<open>i\<close>, in direction
  \<open>sign\<close>. The pair \<^verbatim>\<open>lock, dermax\<close> of the source is one option: \<open>None\<close> while
  \<^verbatim>\<open>lock\<close> is false, \<open>Some dermax\<close> once it is true. A pass either raises, or ends
  the scan with a boundary (\<open>Stop reason index x\<close>), or goes on (\<open>Go\<close>).
  \<^verbatim>\<open>
  decreasing = self.sder[i+sign]<self.sder[i]
  increasing = self.sder[i+sign]>self.sder[i]
  if not lock:
      if (decreasing if sign==-1 else increasing):
          lock = True
          dermax = self.sder[i]
          if dermax == outerslope: raise Exception('Non-standing slope',prange)
  if lock:
      if abs((self.der[i]-outerslope)/(dermax-outerslope)) <= params['slopedrop']:
          peakr.append(1); outp_i.append(i); outp_e.append(self.spectrum[0,i]); break
      if self.sder[i+sign]*self.sder[i] <= 0:
          peakr.append(2); outp_i.append(i); outp_e.append(self.spectrum[0,i]); break
  \<close>
\<close>

datatype step = Stop int int real | Go "real option"

definition decay_stop :: "entity \<Rightarrow> real \<Rightarrow> real \<Rightarrow> real \<Rightarrow> int \<Rightarrow> bool" where
  "decay_stop ent outerslope sd dermax i =
     (\<bar>(np_val (der ent) i - outerslope) / (dermax - outerslope)\<bar> \<le> sd)"

definition sign_stop :: "entity \<Rightarrow> int \<Rightarrow> int \<Rightarrow> bool" where
  "sign_stop ent sign i = (np_val (sder ent) (i + sign) * np_val (sder ent) i \<le> 0)"

definition arming :: "entity \<Rightarrow> int \<Rightarrow> int \<Rightarrow> bool" where
  "arming ent sign i =
     (let decreasing = np_val (sder ent) (i + sign) < np_val (sder ent) i;
          increasing = np_val (sder ent) (i + sign) > np_val (sder ent) i
      in if sign = - 1 then decreasing else increasing)"

definition scan_step ::
  "entity \<Rightarrow> real \<Rightarrow> real \<Rightarrow> int \<Rightarrow> int \<Rightarrow> int \<Rightarrow> real option \<Rightarrow> pyerr + step" where
  "scan_step ent outerslope sd sign prange i lock =
     (if \<not> np_valid (sder ent) (i + sign) \<or> \<not> np_valid (sder ent) i then Inl IndexError
      else
        let armed =
              (case lock of
                 Some dermax \<Rightarrow> Inr (Some dermax)
               | None \<Rightarrow>
                   if arming ent sign i then
                     (if np_val (sder ent) i = outerslope then Inl (NonStandingSlope prange)
                      else Inr (Some (np_val (sder ent) i)))
                   else Inr None)
        in case armed of
             Inl e \<Rightarrow> Inl e
           | Inr None \<Rightarrow> Inr (Go None)
           | Inr (Some dermax) \<Rightarrow>
               if \<not> np_valid (der ent) i then Inl IndexError
               else if decay_stop ent outerslope sd dermax i then
                 (case np_get (spectrum ent) i of
                    Inl e \<Rightarrow> Inl e
                  | Inr xy \<Rightarrow> Inr (Stop 1 i (fst xy)))
               else if sign_stop ent sign i then
                 (case np_get (spectrum ent) i of
                    Inl e \<Rightarrow> Inl e
                  | Inr xy \<Rightarrow> Inr (Stop 2 i (fst xy)))
               else Inr (Go (Some dermax)))"

text \<open>\<^verbatim>\<open>for i in range(center,center+sign*(prange+1),sign)\<close>: at most \<open>prange + 1\<close>
  passes, the index moving by \<open>sign\<close>; \<open>None\<close> when the range is used up with no
  boundary.\<close>

fun scan ::
  "entity \<Rightarrow> real \<Rightarrow> real \<Rightarrow> int \<Rightarrow> int \<Rightarrow> int \<Rightarrow> nat \<Rightarrow> real option
     \<Rightarrow> pyerr + (int \<times> int \<times> real) option" where
  "scan ent outerslope sd sign prange i 0 lock = Inr None"
| "scan ent outerslope sd sign prange i (Suc n) lock =
     (case scan_step ent outerslope sd sign prange i lock of
        Inl e \<Rightarrow> Inl e
      | Inr (Stop r j x) \<Rightarrow> Inr (Some (r, j, x))
      | Inr (Go lock') \<Rightarrow> scan ent outerslope sd sign prange (i + sign) n lock')"

text \<open>
  The body of the \<^verbatim>\<open>try\<close> of \<^verbatim>\<open>definepeak\<close>, and \<^verbatim>\<open>definepeak\<close> with its
  handler: \<^verbatim>\<open>err.add(e,'definepeak',self.fullname,npeak)\<close> and the all-zero result.
\<close>

type_synonym bounds = "(real \<times> real) \<times> (int \<times> int) \<times> (real \<times> real) \<times> (int \<times> int)"

definition definepeak_try ::
  "externals \<Rightarrow> entity \<Rightarrow> int \<Rightarrow> int \<Rightarrow> params \<Rightarrow> pyerr + bounds" where
  "definepeak_try ext ent npeak prange ps =
     (case np_get (mai ent) npeak of
        Inl e \<Rightarrow> Inl e
      | Inr center \<Rightarrow>
          (case outer_slope ext ps (py_slice (sder ent) (center - prange) (center + prange + 1)) of
             Inl e \<Rightarrow> Inl e
           | Inr (outerslope, boxwidth) \<Rightarrow>
               (case scan ent outerslope (slopedrop ps) (- 1) prange center (nat (prange + 1)) None of
                  Inl e \<Rightarrow> Inl e
                | Inr left \<Rightarrow>
                    (case scan ent outerslope (slopedrop ps) 1 prange center (nat (prange + 1)) None of
                       Inl e \<Rightarrow> Inl e
                     | Inr right \<Rightarrow>
                         (case (left, right) of
                            (Some (r0, i0, x0), Some (r1, i1, x1)) \<Rightarrow>
                              if x0 = x1 then Inl (ZeroWidthPeak prange)
                              else Inr ((x0, x1), (i0, i1), (outerslope, boxwidth), (r0, r1))
                          | _ \<Rightarrow> Inl (UnableToDefinePeak prange))))))"

definition sentinel_bounds :: bounds where
  "sentinel_bounds = ((0, 0), (0, 0), (0, 0), (0, 0))"

definition definepeak ::
  "externals \<Rightarrow> entity \<Rightarrow> int \<Rightarrow> int \<Rightarrow> params \<Rightarrow> errsink \<Rightarrow> bounds \<times> errsink" where
  "definepeak ext ent npeak prange ps sink =
     (case definepeak_try ext ent npeak prange ps of
        Inr r \<Rightarrow> (r, sink)
      | Inl e \<Rightarrow> (sentinel_bounds, err_add e ''definepeak'' (fullname ent) npeak sink))"

section \<open>Fwhm\<close>

definition Fwhm ::
  "externals \<Rightarrow> array2 \<Rightarrow> int \<Rightarrow> real \<times> real \<Rightarrow> int \<times> int \<Rightarrow> pyerr + real" where
  "Fwhm ext array ic coords ilims =
     (let yhm = snd coords / 2; i0 = fst ilims; i1 = snd ilims in
      case InBetween ext (map snd (py_slice array i0 ic)) yhm True of
        Inl e \<Rightarrow> Inl e
      | Inr (iredhm1, _) \<Rightarrow>
          (case InBetween ext (map snd (py_slice array ic (i1 + 1))) yhm True of
             Inl e \<Rightarrow> Inl e
           | Inr (_, iredhm2) \<Rightarrow>
               (case (case iredhm1 of
                        None \<Rightarrow> Inr None
                      | Some j \<Rightarrow>
                          (case np_get array (j + i0) of
                             Inl e \<Rightarrow> Inl e
                           | Inr xy \<Rightarrow> Inr (Some (fst xy)))) of
                  Inl e \<Rightarrow> Inl e
                | Inr xhm1 \<Rightarrow>
                    (case (case iredhm2 of
                             None \<Rightarrow> Inr None
                           | Some j \<Rightarrow>
                               (case np_get array (j + ic) of
                                  Inl e \<Rightarrow> Inl e
                                | Inr xy \<Rightarrow> Inr (Some (fst xy)))) of
                       Inl e \<Rightarrow> Inl e
                     | Inr xhm2 \<Rightarrow>
                         (case (xhm1, xhm2) of
                            (Some a, Some b) \<Rightarrow> Inr (b - a)
                          | _ \<Rightarrow> Inr 0)))))"

section \<open>The Peak record and computepeak\<close>

text \<open>
  \<^verbatim>\<open>Peak(info)\<close> stores the 29 entries of \<^verbatim>\<open>info\<close> under the names of
  \<^verbatim>\<open>peakattr\<close>, in the order of the comments in \<^verbatim>\<open>computepeak\<close>. The rank fields
  \<^verbatim>\<open>integral_\<close>, \<^verbatim>\<open>width_\<close>, \<^verbatim>\<open>height_\<close>, \<^verbatim>\<open>fwhm_\<close>, \<^verbatim>\<open>ahh_\<close>,
  \<^verbatim>\<open>ahw_\<close> and \<^verbatim>\<open>center_\<close> are written \<open>integral_rank\<close>, ..., \<open>center_rank\<close>
  (a name cannot end in an underscore); \<^verbatim>\<open>fullname\<close> and \<^verbatim>\<open>prange\<close> are
  \<open>fullname_pk\<close> and \<open>prange_pk\<close>. \<^verbatim>\<open>yvals\<close> is \<open>None\<close> where the source stores
  the integer 0.
\<close>

record peak =
  fullname_pk :: string
  num :: int
  center_rank :: int
  center :: real
  icenter :: int
  center_tof :: real
  integral :: real
  integral_rank :: int
  integral_tof :: real
  width :: real
  width_rank :: int
  height :: real
  height_rank :: int
  fwhm :: real
  fwhm_rank :: int
  ahh :: real
  ahh_rank :: int
  ahw :: real
  ahw_rank :: int
  xlims :: "real \<times> real"
  ilims :: "int \<times> int"
  outerslope :: "real \<times> real"
  peakreason :: "int \<times> int"
  yvals :: "(real \<times> real) option"
  coords :: "real \<times> real"
  coords_tof :: "real \<times> real"
  prange_pk :: int
  user_edited :: bool
  user_defined :: bool

text \<open>\<^verbatim>\<open>Peak.__init__\<close>: raises when \<^verbatim>\<open>len(info) != peakattr.size\<close>.\<close>

definition Peak_init :: "externals \<Rightarrow> peak \<Rightarrow> pyerr + peak" where
  "Peak_init ext info =
     (if 29 \<noteq> peakattr_size ext then Inl (InfoLength 29 (peakattr_size ext)) else Inr info)"

text \<open>
  The boundaries \<^verbatim>\<open>computepeak\<close> works with: detected (\<^verbatim>\<open>setx is None\<close>) or given
  by the caller. Then the metrics and the \<^verbatim>\<open>info\<close> tuple. Division of floats by zero
  gives \<^verbatim>\<open>inf\<close> or \<^verbatim>\<open>nan\<close> in numpy and raises nothing; here it is HOL's
  \<open>x / 0 = 0\<close>.
\<close>

definition peak_limits ::
  "externals \<Rightarrow> entity \<Rightarrow> int \<Rightarrow> int \<Rightarrow> params \<Rightarrow> (real \<times> real) option \<Rightarrow> errsink
     \<Rightarrow> (pyerr + bounds \<times> bool) \<times> errsink" where
  "peak_limits ext ent peakpos prange ps setx sink =
     (case setx of
        None \<Rightarrow>
          (case definepeak ext ent peakpos prange ps sink of
             (b, sink1) \<Rightarrow> (Inr (b, False), sink1))
      | Some sx \<Rightarrow>
          (case GetIndex2 ext (map fst (spectrum ent)) sx of
             Inl e \<Rightarrow> (Inl e, sink)
           | Inr il \<Rightarrow> (Inr ((sx, il, (0, 0), (3, 3)), True), sink)))"

definition peak_info ::
  "externals \<Rightarrow> entity \<Rightarrow> int \<Rightarrow> int \<Rightarrow> real \<times> real \<Rightarrow> real \<Rightarrow> int \<Rightarrow> real
     \<Rightarrow> bounds \<times> bool \<Rightarrow> pyerr + peak" where
  "peak_info ext ent peakpos prange crd ctof ic ctof_mode lims =
     (case lims of
        ((xl, il, os, pr), edited) \<Rightarrow>
          let successful = (xl \<noteq> (0, 0)) in
          bind_err (if successful then Integrate (spectrum ent) il else Inr 0) (\<lambda>integral_v.
          bind_err (if successful
                    then bind_err (Integrate (spectrum_tof ent) il) (\<lambda>v. Inr (- v))
                    else Inr 0) (\<lambda>integral_tof_v.
          bind_err (if successful
                    then bind_err (np_get (spectrum ent) (fst il)) (\<lambda>p0.
                         bind_err (np_get (spectrum ent) (snd il)) (\<lambda>p1.
                         Inr (Some (snd p0, snd p1))))
                    else Inr None) (\<lambda>yv.
          let width_v = (if successful then snd xl - fst xl else - 1);
              height_v = (case yv of
                            Some (y0, y1) \<Rightarrow> snd crd - (y1 + y0) / 2
                          | None \<Rightarrow> - 1)
          in
          bind_err (if successful then Fwhm ext (spectrum ent) ic crd il else Inr 0) (\<lambda>fwhm_v.
          Inr \<lparr> fullname_pk = fullname ent, num = - 1, center_rank = peakpos,
                center = fst crd, icenter = ic, center_tof = ctof_mode,
                integral = integral_v, integral_rank = - 1,
                integral_tof = integral_tof_v,
                width = width_v, width_rank = - 1,
                height = height_v, height_rank = - 1,
                fwhm = fwhm_v, fwhm_rank = - 1,
                ahh = integral_v / (height_v ^ 2), ahh_rank = - 1,
                ahw = integral_v / (height_v * width_v), ahw_rank = - 1,
                xlims = xl, ilims = il, outerslope = os, peakreason = pr,
                yvals = yv, coords = crd, coords_tof = (ctof, snd crd),
                prange_pk = prange, user_edited = edited, user_defined = False \<rparr>)))))"

definition computepeak_info ::
  "externals \<Rightarrow> entity \<Rightarrow> int \<Rightarrow> int \<Rightarrow> params \<Rightarrow> (real \<times> real) option \<Rightarrow> errsink
     \<Rightarrow> (pyerr + peak) \<times> errsink" where
  "computepeak_info ext ent peakpos prange ps setx sink =
     (case bind_err (np_get (ma ent) peakpos) (\<lambda>crd.
           bind_err (E2t ext (fst crd) None) (\<lambda>ctof.
           bind_err (np_get (mai ent) peakpos) (\<lambda>ic.
           bind_err (E2t ext (fst crd) (Some (mode ent))) (\<lambda>ctof_mode.
           Inr (crd, ctof, ic, ctof_mode))))) of
        Inl e \<Rightarrow> (Inl e, sink)
      | Inr (crd, ctof, ic, ctof_mode) \<Rightarrow>
          (case peak_limits ext ent peakpos prange ps setx sink of
             (Inl e, sink1) \<Rightarrow> (Inl e, sink1)
           | (Inr lims, sink1) \<Rightarrow>
               (peak_info ext ent peakpos prange crd ctof ic ctof_mode lims, sink1)))"

text \<open>
  \<^verbatim>\<open>computepeak\<close> with its handler:
  \<^verbatim>\<open>
    except Exception as e:
        err.add(e,'computepeak',self.fullname,-1)
        return Peak(info)
  \<close>
  Every statement of the \<^verbatim>\<open>try\<close> before \<^verbatim>\<open>return Peak(info)\<close> only prepares
  \<^verbatim>\<open>info\<close>, so an exception raised there leaves \<^verbatim>\<open>info\<close> unbound and the
  handler's \<^verbatim>\<open>Peak(info)\<close> raises UnboundLocalError; an exception raised by
  \<^verbatim>\<open>Peak(info)\<close> itself is raised again by the handler's call.
\<close>

definition computepeak ::
  "externals \<Rightarrow> entity \<Rightarrow> int \<Rightarrow> int \<Rightarrow> params \<Rightarrow> (real \<times> real) option \<Rightarrow> errsink
     \<Rightarrow> (pyerr + peak) \<times> errsink" where
  "computepeak ext ent peakpos prange ps setx sink =
     (case computepeak_info ext ent peakpos prange ps setx sink of
        (Inr info, sink1) \<Rightarrow>
          (case Peak_init ext info of
             Inr pk \<Rightarrow> (Inr pk, sink1)
           | Inl e \<Rightarrow> (Peak_init ext info, err_add e ''computepeak'' (fullname ent) (- 1) sink1))
      | (Inl e, sink1) \<Rightarrow>
          (Inl UnboundLocalError, err_add e ''computepeak'' (fullname ent) (- 1) sink1))"

section \<open>maxima and minima\<close>

text \<open>\<^verbatim>\<open>arr[:,imax]\<close>: the columns at the given indices (IndexError if one is out of
  range).\<close>

definition fancy_columns :: "array2 \<Rightarrow> int list \<Rightarrow> pyerr + array2" where
  "fancy_columns arr idx =
     (if list_all (np_valid arr) idx then Inr (map (np_val arr) idx) else Inl IndexError)"

definition maxima ::
  "externals \<Rightarrow> array2 \<Rightarrow> (real \<times> real) option \<Rightarrow> real option \<Rightarrow> int
     \<Rightarrow> pyerr + (array2 \<times> int list)" where
  "maxima ext arr0 xbounds ybounds smoothing =
     bind_err (Smooth ext arr0 smoothing) (\<lambda>arr.
     bind_err (IndMaxima ext (map snd arr) None) (\<lambda>imax.
     bind_err (fancy_columns arr imax) (\<lambda>cmaxima.
       let condx = (case xbounds of
                      Some (lo, hi) \<Rightarrow> map (\<lambda>c. fst c \<ge> lo \<and> fst c \<le> hi) cmaxima
                    | None \<Rightarrow> map (\<lambda>c. True) cmaxima);
           condy = (case ybounds of
                      Some yb \<Rightarrow> map (\<lambda>c. snd c \<ge> yb) cmaxima
                    | None \<Rightarrow> map (\<lambda>c. True) cmaxima);
           kept = map fst (filter (\<lambda>(c, bx, by). bx \<and> by) (zip cmaxima (zip condx condy)))
       in bind_err (GetIndex ext (map fst arr) (map fst kept) False) (\<lambda>imaxima.
          Inr (kept, imaxima)))))"

definition minima ::
  "externals \<Rightarrow> array2 \<Rightarrow> (real \<times> real) option \<Rightarrow> real option \<Rightarrow> int
     \<Rightarrow> pyerr + (array2 \<times> int list)" where
  "minima ext arr xbounds ybounds smoothing =
     bind_err (IndMaxima ext (map snd arr) (Some (- 1))) (\<lambda>imin.
     bind_err (fancy_columns arr imin) (\<lambda>cminima.
       let condx = (case xbounds of
                      Some (lo, hi) \<Rightarrow> map (\<lambda>c. fst c \<ge> lo \<and> fst c \<le> hi) cminima
                    | None \<Rightarrow> map (\<lambda>c. True) cminima);
           condy = (case ybounds of
                      Some yb \<Rightarrow> map (\<lambda>c. snd c \<le> yb) cminima
                    | None \<Rightarrow> map (\<lambda>c. True) cminima);
           kept = map fst (filter (\<lambda>(c, bx, by). bx \<and> by) (zip cminima (zip condx condy)))
       in bind_err (GetIndex ext (map fst arr) (map fst kept) False) (\<lambda>iminima.
          Inr (kept, iminima))))"

section \<open>sorting: ranks and the order by intensity\<close>

text \<open>
  \<^verbatim>\<open>argsort\<close> is numpy's: for a row it returns the indices that sort it ascending. Which
  of two equal entries comes first is up to the sort that numpy runs, so \<^verbatim>\<open>sorting\<close>
  takes the argsort as a parameter, and \<open>is_argsort\<close> says what every argsort does: it
  returns a permutation of the indices that puts the row in ascending order. The same
  parameter sorts the index rows of the second \<^verbatim>\<open>argsort()\<close>, read as reals.
  \<open>argsort_stable\<close> is one argsort (equal entries keep their order), used for the
  worked inputs.
\<close>

definition is_argsort :: "(real list \<Rightarrow> nat list) \<Rightarrow> bool" where
  "is_argsort f =
     (\<forall>xs. mset (f xs) = mset [0..<length xs] \<and> sorted (map (\<lambda>i. xs ! i) (f xs)))"

definition argsort_stable :: "real list \<Rightarrow> nat list" where
  "argsort_stable xs = map snd (sort_key fst (zip xs [0..<length xs]))"

text \<open>
  \<^verbatim>\<open>
  def sorting(inp):
      peaks = list(inp.values())
      array = np.empty((6,0))
      for el in peaks:
          array = np.append(array, np.array([el.integral, el.width, el.height, el.fwhm, el.ahh, el.ahw]).reshape(6,1),axis=1)
      integral_sorting = (-array).argsort()[0]
      ranks = (-array).argsort().argsort()
      for el in range(len(peaks)):
          peaks[el].integral_ = ranks[0,el]
          ...
          peaks[el].ahw_ = ranks[5,el]
          peaks[el].num = peaks[el].integral_
      return {i: peaks[integral_sorting[i]] for i in range(len(peaks))}
  \<close>
  The dictionary \<^verbatim>\<open>inp\<close> is the list of its items in insertion order; each key holds
  a Peak object of its own. \<open>neg_rows\<close> is \<^verbatim>\<open>-array\<close>, \<open>rank_row\<close> one row of
  \<^verbatim>\<open>(-array).argsort().argsort()\<close>, \<open>set_ranks\<close> the body of the second loop.
\<close>

definition neg_rows :: "peak list \<Rightarrow> real list list" where
  "neg_rows peaks =
     map (map uminus) [map integral peaks, map width peaks, map height peaks,
                       map fwhm peaks, map ahh peaks, map ahw peaks]"

definition rank_row :: "(real list \<Rightarrow> nat list) \<Rightarrow> real list \<Rightarrow> nat list" where
  "rank_row argsort row = argsort (map real (argsort row))"

definition set_ranks :: "nat list list \<Rightarrow> peak list \<Rightarrow> nat \<Rightarrow> peak" where
  "set_ranks ranks peaks el =
     (peaks ! el)\<lparr> integral_rank := int (ranks ! 0 ! el),
                   width_rank := int (ranks ! 1 ! el),
                   height_rank := int (ranks ! 2 ! el),
                   fwhm_rank := int (ranks ! 3 ! el),
                   ahh_rank := int (ranks ! 4 ! el),
                   ahw_rank := int (ranks ! 5 ! el),
                   num := int (ranks ! 0 ! el) \<rparr>"

definition sorting :: "(real list \<Rightarrow> nat list) \<Rightarrow> ('k \<times> peak) list \<Rightarrow> (nat \<times> peak) list" where
  "sorting argsort inp =
     (let peaks = map snd inp;
          integral_sorting = argsort (neg_rows peaks ! 0);
          ranks = map (rank_row argsort) (neg_rows peaks);
          ranked = map (set_ranks ranks peaks) [0..<length peaks]
      in map (\<lambda>i. (i, ranked ! (integral_sorting ! i))) [0..<length peaks])"

section \<open>propsisot: the search radius of a candidate\<close>

text \<open>
  The body of the \<^verbatim>\<open>try\<close> in \<^verbatim>\<open>propsisot\<close> up to the call of
  \<^verbatim>\<open>computepeak\<close>, for loop index \<open>i\<close>:
  \<^verbatim>\<open>
    nleft = self.mai[i]
    nright = np.shape(self.spectrum)[1] - self.mai[i] - 1
    if np.size(self.mai) > 1:
        if i == 0:                      prange = min(params['prangemax'], nleft, nright)
        elif i == np.size(self.mai)-1:  prange = min(params['prangemax'], nleft, nright)
        else: prange = min(params['prangemax'],self.mai[i+1]-self.mai[i-1],nleft,nright)
    elif np.size(self.mai) == 1:
        prange = min(self.mai[0]-1,np.shape(self.spectrum[1])-self.mai[-1]-1,params['prangemax'])
    else:
        prange = 0
  \<close>
  The single-candidate branch subtracts an index from \<^verbatim>\<open>np.shape(...)\<close>, a tuple;
  what that expression evaluates to is decided by numpy's operator dispatch and not by this
  source file, so its outcome is the parameter \<open>single\<close>, given \<^verbatim>\<open>mai[0]\<close>, the
  number of samples, \<^verbatim>\<open>mai[-1]\<close> and \<^verbatim>\<open>prangemax\<close>.
\<close>

definition propsisot_prange ::
  "(int \<Rightarrow> nat \<Rightarrow> int \<Rightarrow> int \<Rightarrow> pyerr + int) \<Rightarrow> params \<Rightarrow> entity \<Rightarrow> nat \<Rightarrow> pyerr + int" where
  "propsisot_prange single ps ent i =
     (let size = length (mai ent) in
      if size \<le> i then Inl IndexError
      else
        let nleft = mai ent ! i;
            nright = int (length (spectrum ent)) - mai ent ! i - 1
        in if size > 1 then
             (if i = 0 then Inr (min (prangemax ps) (min nleft nright))
              else if i = size - 1 then Inr (min (prangemax ps) (min nleft nright))
              else Inr (min (prangemax ps)
                         (min (mai ent ! (i + 1) - mai ent ! (i - 1)) (min nleft nright))))
           else if size = 1 then
             single (mai ent ! 0) (length (spectrum ent)) (np_val (mai ent) (- 1)) (prangemax ps)
           else Inr 0)"

text \<open>
  The loop of \<^verbatim>\<open>propsisot\<close> and the final \<^verbatim>\<open>sorting(peaks_pos)\<close>. An exception
  in the radius computation or out of \<^verbatim>\<open>computepeak\<close> is logged with
  \<^verbatim>\<open>err.add(e,'propsisot',self.fullname,i)\<close> and the candidate is skipped.
  \<^verbatim>\<open>setx.get(i)\<close> is \<open>setx i\<close>.
\<close>

fun propsisot_loop ::
  "(int \<Rightarrow> nat \<Rightarrow> int \<Rightarrow> int \<Rightarrow> pyerr + int) \<Rightarrow> externals \<Rightarrow> entity \<Rightarrow> params
     \<Rightarrow> (nat \<Rightarrow> (real \<times> real) option) \<Rightarrow> nat list \<Rightarrow> (nat \<times> peak) list \<Rightarrow> errsink
     \<Rightarrow> (nat \<times> peak) list \<times> errsink" where
  "propsisot_loop single ext ent ps setx [] peaks_pos sink = (peaks_pos, sink)"
| "propsisot_loop single ext ent ps setx (i # rest) peaks_pos sink =
     (case propsisot_prange single ps ent i of
        Inl e \<Rightarrow>
          propsisot_loop single ext ent ps setx rest peaks_pos
            (err_add e ''propsisot'' (fullname ent) (int i) sink)
      | Inr prange \<Rightarrow>
          (case computepeak ext ent (int i) prange ps (setx i) sink of
             (Inl e, sink1) \<Rightarrow>
               propsisot_loop single ext ent ps setx rest peaks_pos
                 (err_add e ''propsisot'' (fullname ent) (int i) sink1)
           | (Inr pk, sink1) \<Rightarrow>
               propsisot_loop single ext ent ps setx rest (peaks_pos @ [(i, pk)]) sink1))"

definition propsisot ::
  "(real list \<Rightarrow> nat list) \<Rightarrow> (int \<Rightarrow> nat \<Rightarrow> int \<Rightarrow> int \<Rightarrow> pyerr + int) \<Rightarrow> externals \<Rightarrow> entity
     \<Rightarrow> params \<Rightarrow> (nat \<Rightarrow> (real \<times> real) option) \<Rightarrow> errsink \<Rightarrow> (nat \<times> peak) list \<times> errsink" where
  "propsisot argsort single ext ent ps setx sink =
     (case propsisot_loop single ext ent ps setx [0..<length (mai ent)] [] sink of
        (peaks_pos, sink1) \<Rightarrow> (sorting argsort peaks_pos, sink1))"

section \<open>Worked inputs\<close>

text \<open>A 100-sample spectrum with candidate centers at the indices 10, 20 and 35.\<close>

definition ent_three :: entity where
  "ent_three =
     \<lparr> fullname = ''Fe-56-n-g'', mode = ''n-g'',
       spectrum = map (\<lambda>k. (real k, 0)) [0..<100],
       spectrum_tof = map (\<lambda>k. (real k, 0)) [0..<100],
       ma = [(10, 0), (20, 0), (35, 0)],
       mai = [10, 20, 35],
       der = replicate 99 0, sder = replicate 99 0 \<rparr>"

definition params_max100 :: params where
  "params_max100 = \<lparr> dboxes = 1, maxouterslope = 1, slopedrop = 1 / 5, prangemax = 100 \<rparr>"

text \<open>
  An 11-sample spectrum with one maximum at index 4. Its derivative falls to \<open>- 10\<close>
  right of the maximum and then rises toward the outer slope 0; the smoothed derivative
  is the derivative itself.
\<close>

definition ent_decay :: entity where
  "ent_decay =
     \<lparr> fullname = ''Fe-56-n-g'', mode = ''n-g'',
       spectrum = [(0, 0), (1, 1/2), (2, 3/2), (3, 7/2), (4, 17/2), (5, 13/2), (6, -7/2),
                   (7, -21/2), (8, -29/2), (9, -16), (10, -33/2)],
       spectrum_tof = [(0, 0), (1, 1/2), (2, 3/2), (3, 7/2), (4, 17/2), (5, 13/2), (6, -7/2),
                   (7, -21/2), (8, -29/2), (9, -16), (10, -33/2)],
       ma = [(4, 17/2)],
       mai = [4],
       der = [1/2, 1, 2, 5, -2, -10, -7, -4, -3/2, -1/2],
       sder = [1/2, 1, 2, 5, -2, -10, -7, -4, -3/2, -1/2] \<rparr>"

text \<open>Stand-ins for the helpers of the other modules, for the worked inputs only:
  \<^verbatim>\<open>FitBoxes\<close> puts every sample in the box at 0, \<^verbatim>\<open>InBetween\<close> finds no
  crossing, \<^verbatim>\<open>E2t\<close> and \<^verbatim>\<open>Smooth\<close> change nothing.\<close>

definition ext_plain :: externals where
  "ext_plain =
     \<lparr> FitBoxes = (\<lambda>redder w. Inr (map (\<lambda>v. 0) redder, w)),
       InBetween = (\<lambda>ys y inner. Inr (None, None)),
       E2t = (\<lambda>x m. Inr x),
       GetIndex = (\<lambda>xs vs single. Inr []),
       GetIndex2 = (\<lambda>xs sx. Inr (0, 0)),
       Smooth = (\<lambda>arr n. Inr arr),
       IndMaxima = (\<lambda>ys sign. Inr []),
       peakattr_size = 29 \<rparr>"

text \<open>
  The same stand-ins with a \<^verbatim>\<open>FitBoxes\<close> whose boxes are so narrow that every value
  has a box of its own.
\<close>

definition ext_fine :: externals where
  "ext_fine = ext_plain \<lparr> FitBoxes := (\<lambda>redder w. Inr (redder, w)) \<rparr>"

text \<open>
  A 5-sample spectrum with a small bump at index 2 in a deep valley; the smoothed
  derivative is the mean of each derivative and its neighbours, and rises through the bump.
\<close>

definition ent_bump :: entity where
  "ent_bump =
     \<lparr> fullname = ''Fe-56-n-g'', mode = ''n-g'',
       spectrum = [(0, 0), (1, - 100), (2, - 99), (3, - 100), (4, 0)],
       spectrum_tof = [(0, 0), (1, - 100), (2, - 99), (3, - 100), (4, 0)],
       ma = [(2, - 99)],
       mai = [2],
       der = [- 100, 1, - 1, 100],
       sder = [- 99 / 2, - 100 / 3, 100 / 3, 99 / 2] \<rparr>"

text \<open>
  A 9-sample spectrum that climbs with the constant slope 1 to its maximum at index 4; the
  smoothed derivative is the derivative itself.
\<close>

definition ent_slope :: entity where
  "ent_slope =
     \<lparr> fullname = ''Fe-56-n-g'', mode = ''n-g'',
       spectrum = [(0, 0), (1, 0), (2, 1), (3, 2), (4, 3), (5, 1), (6, 0), (7, 0), (8, 0)],
       spectrum_tof = [(0, 0), (1, 0), (2, 1), (3, 2), (4, 3), (5, 1), (6, 0), (7, 0), (8, 0)],
       ma = [(4, 3)],
       mai = [4],
       der = [0, 1, 1, 1, - 2, - 1, 0, 0],
       sder = [0, 1, 1, 1, - 2, - 1, 0, 0] \<rparr>"

text \<open>Peaks with given integral, width, height and fwhm, for \<^verbatim>\<open>sorting\<close>.\<close>

definition peak0 :: peak where
  "peak0 = \<lparr> fullname_pk = ''Fe-56-n-g'', num = - 1, center_rank = 0, center = 0, icenter = 0,
     center_tof = 0, integral = 0, integral_rank = - 1, integral_tof = 0,
     width = - 1, width_rank = - 1, height = - 1, height_rank = - 1, fwhm = 0, fwhm_rank = - 1,
     ahh = 0, ahh_rank = - 1, ahw = 0, ahw_rank = - 1,
     xlims = (0, 0), ilims = (0, 0), outerslope = (0, 0), peakreason = (0, 0),
     yvals = None, coords = (0, 0), coords_tof = (0, 0), prange_pk = 0,
     user_edited = False, user_defined = False \<rparr>"

definition mk_peak :: "real \<Rightarrow> real \<Rightarrow> real \<Rightarrow> real \<Rightarrow> peak" where
  "mk_peak i w h fw =
     peak0 \<lparr> integral := i, width := w, height := h, fwhm := fw,
             ahh := i / (h * h), ahw := i / (h * w) \<rparr>"

definition three_peaks :: "(nat \<times> peak) list" where
  "three_peaks = [(0, mk_peak 12 3 4 1), (1, mk_peak 30 5 2 2), (2, mk_peak 20 4 10 3)]"

definition two_peaks :: "(nat \<times> peak) list" where
  "two_peaks = [(0, mk_peak 10 5 2 1), (1, mk_peak 20 5 5 2)]"

section \<open>Notions used in the statements\<close>

text \<open>The integral of the line \<open>y = a * x + b\<close> from 0 to \<open>x\<close>.\<close>

definition Flin :: "real \<Rightarrow> real \<Rightarrow> real \<Rightarrow> real" where
  "Flin a b x = a * x * x / 2 + b * x"

text \<open>
  In the spec's words, the decay stop fires when the unsmoothed derivative "has moved a
  configured fraction (\<^verbatim>\<open>slopedrop\<close>) of the way from \<^verbatim>\<open>dermax\<close> toward the outer
  slope". This is that fraction for a derivative value \<open>d\<close>; it follows the spec, not
  the code.
\<close>

definition spec_moved_fraction :: "real \<Rightarrow> real \<Rightarrow> real \<Rightarrow> real" where
  "spec_moved_fraction dermax outer d = (dermax - d) / (dermax - outer)"

text \<open>
  The scan from index \<open>c\<close> in direction \<open>sign\<close> arms its lock in pass \<open>m\<close> and not
  before (all reads of the smoothed derivative up to there being in range).
\<close>

definition first_arming :: "entity \<Rightarrow> int \<Rightarrow> int \<Rightarrow> nat \<Rightarrow> bool" where
  "first_arming ent sign c m =
     ((\<forall>k\<le>m. np_valid (sder ent) (c + sign * int k) \<and>
              np_valid (sder ent) (c + sign * int k + sign)) \<and>
      (\<forall>k<m. \<not> arming ent sign (c + sign * int k)) \<and>
      arming ent sign (c + sign * int m))"

section \<open>Properties of the search radius\<close>

text \<open>
  C1, as the code has it. For a spectrum with at least three candidate centers and an
  interior candidate \<open>i\<close>, \<^verbatim>\<open>propsisot\<close> takes as search radius the minimum of the
  configured maximum radius, the distance to the left edge of the spectrum, the distance
  to the right edge, and the whole spacing \<^verbatim>\<open>mai[i+1] - mai[i-1]\<close> between the two
  neighbours of the candidate (the code does not halve it).
\<close>

theorem propsisot_prange_interior:
  assumes "0 < i" and "i + 1 < length (mai ent)"
  shows "propsisot_prange single ps ent i =
           Inr (Min {prangemax ps,
                     mai ent ! i,
                     int (length (spectrum ent)) - mai ent ! i - 1,
                     mai ent ! (i + 1) - mai ent ! (i - 1)})"
  using assms by (simp add: propsisot_prange_def Let_def min.commute min.left_commute)

theorem propsisot_prange_interior_witness:
  "(0::nat) < 1 \<and> 1 + 1 < length (mai ent_three) \<and>
   propsisot_prange (\<lambda>a n b m. Inl TypeError) params_max100 ent_three 1 = Inr 20"
  using propsisot_prange_interior [of 1 ent_three "\<lambda>a n b m. Inl TypeError" params_max100]
  by (simp add: ent_three_def params_max100_def)

text \<open>
  C1 as the spec states it (half the neighbour spacing, radius 12 for the centers
  10, 20, 35 in a 100-sample array with \<^verbatim>\<open>prangemax=100\<close>) fails: the code's
  radius for the middle candidate is 20, the distance to the left edge.
\<close>

theorem propsisot_prange_half_spacing_counterexample:
  "propsisot_prange (\<lambda>a n b m. Inl TypeError) params_max100 ent_three 1 \<noteq> Inr 12"
  by (simp add: propsisot_prange_def ent_three_def params_max100_def)

section \<open>Integrate on linear segments, in exact arithmetic\<close>

lemma simpson_panel_linear:
  fixes x0 x1 x2 a b :: real
  assumes "x0 \<noteq> x1" and "x1 \<noteq> x2"
  shows "(let ha = x1 - x0; hb = x2 - x1; hsum = ha + hb; hprod = ha * hb; h0divh1 = ha / hb
          in hsum / 6 * ((a * x0 + b) * (2 - 1 / h0divh1) + (a * x1 + b) * hsum * hsum / hprod
                            + (a * x2 + b) * (2 - h0divh1)))
         = Flin a b x2 - Flin a b x0"
proof -
  define ha hb where "ha = x1 - x0" and "hb = x2 - x1"
  have nz: "ha \<noteq> 0" "hb \<noteq> 0" using assms by (simp_all add: ha_def hb_def)
  have x1: "x1 = x0 + ha" and x2: "x2 = x0 + ha + hb" by (simp_all add: ha_def hb_def)
  show ?thesis
    unfolding Let_def ha_def [symmetric] hb_def [symmetric] Flin_def
    unfolding x1 x2
    using nz by (simp add: field_simps)
qed

lemma slice2_nat:
  assumes "e \<le> length zs" and "(e - s + 1) div 2 = m"
  shows "slice2 zs (int s) (int e) = map (\<lambda>k. zs ! (s + 2 * k)) [0..<m]"
  using assms by (auto simp add: slice2_def norm_index_def Let_def min_def)

lemma np_diff_nth:
  assumes "j + 1 < length x"
  shows "np_diff x ! j = x ! (j + 1) - x ! j"
proof -
  have "j < length x - 1" using assms by simp
  then show ?thesis by (simp add: np_diff_def)
qed

lemma zip5_map_upt:
  "zip (map f1 [0..<m]) (zip (map f2 [0..<m]) (zip (map f3 [0..<m])
      (zip (map f4 [0..<m]) (map f5 [0..<m])))) =
   map (\<lambda>k. (f1 k, f2 k, f3 k, f4 k, f5 k)) [0..<m]"
  by (rule nth_equalityI) simp_all

lemma sum_list_telescope:
  fixes G :: "nat \<Rightarrow> real"
  shows "sum_list (map (\<lambda>k. G (Suc k) - G k) [0..<m]) = G m - G 0"
  by (induction m) simp_all

lemma basic_simps_linear:
  assumes inc: "sorted_wrt (<) xs"
    and bound: "s + 2 * m + 1 \<le> length xs"
    and pos: "1 \<le> s + 2 * m"
  shows "basic_simps (map (\<lambda>x. a * x + b) xs) (int s) (int (s + 2 * m) - 1) xs =
         Flin a b (xs ! (s + 2 * m)) - Flin a b (xs ! s)"
proof -
  let ?ys = "map (\<lambda>x. a * x + b) xs"
  let ?h = "np_diff xs"
  let ?n = "length xs"
  have lh: "length ?h = ?n - 1" by (simp add: np_diff_def)
  have stop: "int (s + 2 * m) - 1 = int (s + 2 * m - 1)" using pos by simp
  have c0: "(s + 2 * m - 1 - s + 1) div 2 = m" using pos by presburger
  have c1: "(s + 2 * m - (s + 1) + 1) div 2 = m" by presburger
  have c2: "(s + 2 * m + 1 - (s + 2) + 1) div 2 = m" by presburger
  have i1: "int s + 1 = int (s + 1)" "int (s + 2 * m) - 1 + 1 = int (s + 2 * m)"
    and i2: "int s + 2 = int (s + 2)" "int (s + 2 * m) - 1 + 2 = int (s + 2 * m + 1)"
    by simp_all
  have y0: "slice2 ?ys (int s) (int (s + 2 * m) - 1) = map (\<lambda>k. ?ys ! (s + 2 * k)) [0..<m]"
    unfolding stop using bound by (intro slice2_nat c0) simp
  have y1: "slice2 ?ys (int s + 1) (int (s + 2 * m) - 1 + 1) = map (\<lambda>k. ?ys ! (s + 1 + 2 * k)) [0..<m]"
    unfolding i1 using bound by (intro slice2_nat c1) simp
  have y2: "slice2 ?ys (int s + 2) (int (s + 2 * m) - 1 + 2) = map (\<lambda>k. ?ys ! (s + 2 + 2 * k)) [0..<m]"
    unfolding i2 using bound by (intro slice2_nat c2) simp
  have h0: "slice2 ?h (int s) (int (s + 2 * m) - 1) = map (\<lambda>k. ?h ! (s + 2 * k)) [0..<m]"
    unfolding stop using bound lh by (intro slice2_nat c0) simp
  have h1: "slice2 ?h (int s + 1) (int (s + 2 * m) - 1 + 1) = map (\<lambda>k. ?h ! (s + 1 + 2 * k)) [0..<m]"
    unfolding i1 using bound lh by (intro slice2_nat c1) simp
  define G where "G k = Flin a b (xs ! (s + 2 * k))" for k
  define P :: "real \<times> real \<times> real \<times> real \<times> real \<Rightarrow> real" where
    "P = (\<lambda>(ya, yb, yc, ha, hb).
             let hsum = ha + hb; hprod = ha * hb; h0divh1 = ha / hb
             in hsum / 6 * (ya * (2 - 1 / h0divh1) + yb * hsum * hsum / hprod
                            + yc * (2 - h0divh1)))"
  define T where "T k = (?ys ! (s + 2 * k), ?ys ! (s + 1 + 2 * k), ?ys ! (s + 2 + 2 * k),
                      ?h ! (s + 2 * k), ?h ! (s + 1 + 2 * k))" for k
  have panel: "P (T k) = G (Suc k) - G k" if k: "k < m" for k
  proof -
    let ?i = "s + 2 * k"
    have i: "?i + 2 < ?n" using k bound by simp
    have ne1: "xs ! ?i \<noteq> xs ! (?i + 1)"
      using sorted_wrt_nth_less [OF inc, of ?i "?i + 1"] i by simp
    have ne2: "xs ! (?i + 1) \<noteq> xs ! (?i + 2)"
      using sorted_wrt_nth_less [OF inc, of "?i + 1" "?i + 2"] i by simp
    have hv: "?h ! ?i = xs ! (?i + 1) - xs ! ?i" "?h ! (s + 1 + 2 * k) = xs ! (?i + 2) - xs ! (?i + 1)"
      using i np_diff_nth [of ?i xs] np_diff_nth [of "?i + 1" xs]
      by (simp_all add: add.commute add.left_commute)
    have yv: "?ys ! ?i = a * xs ! ?i + b" "?ys ! (s + 1 + 2 * k) = a * xs ! (?i + 1) + b"
       "?ys ! (s + 2 + 2 * k) = a * xs ! (?i + 2) + b"
      using i by (simp_all add: add.commute add.left_commute)
    show ?thesis
      unfolding T_def P_def hv yv G_def using simpson_panel_linear [OF ne1 ne2, of a b]
      by (simp add: Let_def add.commute add.left_commute)
  qed
  have "basic_simps ?ys (int s) (int (s + 2 * m) - 1) xs = sum_list (map P (map T [0..<m]))"
    unfolding basic_simps_def P_def T_def Let_def y0 y1 y2 h0 h1 zip5_map_upt by (rule refl)
  also have "map P (map T [0..<m]) = map (\<lambda>k. G (Suc k) - G k) [0..<m]"
    using panel by simp
  finally show ?thesis using sum_list_telescope [of G m] by (simp add: G_def)
qed

lemma trapezoid_linear:
  "0.5 * (x1 - x0) * ((a * x1 + b) + (a * x0 + b)) = Flin a b x1 - Flin a b (x0 :: real)"
  by (simp add: Flin_def field_simps)

lemma basic_simps_short:
  assumes "length y = length x" and "length x \<le> 2"
  shows "basic_simps y 0 (- 1) x = 0"
proof -
  consider "length x = 0" | "length x = 1" | "length x = 2" using assms(2) by linarith
  then show ?thesis
    using assms(1)
    by cases (simp_all add: basic_simps_def slice2_def norm_index_def np_diff_def Let_def)
qed

lemma simps_linear:
  assumes inc: "sorted_wrt (<) xs" and ne: "xs \<noteq> []"
  shows "simps (map (\<lambda>x. a * x + b) xs) xs = Inr (Flin a b (last xs) - Flin a b (hd xs))"
proof -
  let ?ys = "map (\<lambda>x. a * x + b) xs"
  let ?n = "length xs"
  have n: "0 < ?n" using ne by simp
  have lst: "last xs = xs ! (?n - 1)" using ne by (rule last_conv_nth)
  have hd: "hd xs = xs ! 0" using ne by (rule hd_conv_nth)
  show ?thesis
  proof (cases "even ?n")
    case False
    then obtain m where m: "?n = 2 * m + 1" by (auto elim: oddE)
    have "basic_simps ?ys 0 (int ?n - 2) xs = Flin a b (xs ! (2 * m)) - Flin a b (xs ! 0)"
    proof (cases "m = 0")
      case True
      then show ?thesis using m basic_simps_short [of ?ys xs] by simp
    next
      case False
      have "int ?n - 2 = int (0 + 2 * m) - 1" using m by simp
      then show ?thesis
        using basic_simps_linear [OF inc, of 0 m a b] m False by simp
    qed
    then show ?thesis using False m n by (simp add: simps_def Let_def lst hd)
  next
    case True
    then obtain k where k: "?n = 2 * k" by (auto elim: evenE)
    then obtain m where m: "?n = 2 * m + 2" using n by (cases k) auto
    have r1: "basic_simps ?ys 0 (int ?n - 3) xs = Flin a b (xs ! (2 * m)) - Flin a b (xs ! 0)"
    proof (cases "m = 0")
      case True
      then show ?thesis using m basic_simps_short [of ?ys xs] by simp
    next
      case False
      have "int ?n - 3 = int (0 + 2 * m) - 1" using m by simp
      then show ?thesis
        using basic_simps_linear [OF inc, of 0 m a b] m False by simp
    qed
    have "int ?n - 2 = int (1 + 2 * m) - 1" using m by simp
    then have r2: "basic_simps ?ys 1 (int ?n - 2) xs = Flin a b (xs ! (2 * m + 1)) - Flin a b (xs ! 1)"
      using basic_simps_linear [OF inc, of 1 m a b] m by simp
    have v1: "0.5 * (xs ! (?n - 1) - xs ! (?n - 2)) * (?ys ! (?n - 1) + ?ys ! (?n - 2)) =
              Flin a b (xs ! (2 * m + 1)) - Flin a b (xs ! (2 * m))"
      using m trapezoid_linear [of "xs ! (2 * m + 1)" "xs ! (2 * m)" a b] by simp
    have v2: "0.5 * (xs ! 1 - xs ! 0) * (?ys ! 1 + ?ys ! 0) = Flin a b (xs ! 1) - Flin a b (xs ! 0)"
      using m trapezoid_linear [of "xs ! 1" "xs ! 0" a b] by simp
    have "simps ?ys xs =
          Inr ((basic_simps ?ys 0 (int ?n - 3) xs + basic_simps ?ys 1 (int ?n - 2) xs) / 2 +
               (0.5 * (xs ! (?n - 1) - xs ! (?n - 2)) * (?ys ! (?n - 1) + ?ys ! (?n - 2)) +
                0.5 * (xs ! 1 - xs ! 0) * (?ys ! 1 + ?ys ! 0)) / 2)"
      using True n by (simp add: simps_def Let_def)
    also have "\<dots> = Inr (Flin a b (xs ! (2 * m + 1)) - Flin a b (xs ! 0))"
      unfolding r1 r2 v1 v2 by (simp add: field_simps)
    finally show ?thesis using m by (simp add: lst hd)
  qed
qed

lemma py_slice_nat:
  "l \<le> h \<Longrightarrow> h \<le> length xs \<Longrightarrow> py_slice xs (int l) (int h) = take (h - l) (drop l xs)"
  by (simp add: py_slice_def norm_index_def Let_def)

lemma np_get_nat: "j < length xs \<Longrightarrow> np_get xs (int j) = Inr (xs ! j)"
  by (simp add: np_get_def np_valid_def np_val_def)

lemma Integrate_linear_zero_nat:
  assumes lt: "j0 < j1" and hi: "j1 < length array"
    and inc: "sorted_wrt (<) (map fst (take (Suc j1 - j0) (drop j0 array)))"
    and lin: "\<forall>p \<in> set (take (Suc j1 - j0) (drop j0 array)). snd p = a * fst p + b"
  shows "Integrate array (int j0, int j1) = Inr 0"
proof -
  let ?seg = "take (Suc j1 - j0) (drop j0 array)"
  let ?xs = "map fst ?seg"
  have seg: "py_slice array (int j0) (int j1 + 1) = ?seg"
    using py_slice_nat [of j0 "Suc j1" array] lt hi by (simp add: add.commute)
  have len: "length ?seg = Suc j1 - j0" using lt hi by simp
  have ne: "?xs \<noteq> []" using len lt by auto
  have ys: "map snd ?seg = map (\<lambda>x. a * x + b) ?xs" using lin by simp
  have first: "?seg ! 0 = array ! j0" using lt hi by simp
  have last: "?seg ! (j1 - j0) = array ! j1" using lt hi by simp
  have hdx: "hd ?xs = fst (array ! j0)"
    using ne first len lt by (simp add: hd_conv_nth)
  have "length ?xs - 1 = j1 - j0" using len lt by simp
  then have lastx: "last ?xs = fst (array ! j1)"
    using ne last len lt by (simp add: last_conv_nth)
  have "j1 - j0 < length ?seg" using len lt by simp
  then have "?seg ! (j1 - j0) \<in> set ?seg" by (rule nth_mem)
  then have y1: "snd (array ! j1) = a * fst (array ! j1) + b" using lin last by simp
  have "0 < length ?seg" using len lt by simp
  then have "?seg ! 0 \<in> set ?seg" by (rule nth_mem)
  then have y0: "snd (array ! j0) = a * fst (array ! j0) + b" using lin first by simp
  have g1: "np_get array (int j1) = Inr (array ! j1)" using hi by (rule np_get_nat)
  have g0: "np_get array (int j0) = Inr (array ! j0)" using lt hi by (intro np_get_nat) simp
  have raw: "simps (map snd ?seg) ?xs =
             Inr (Flin a b (fst (array ! j1)) - Flin a b (fst (array ! j0)))"
    unfolding ys using simps_linear [OF inc ne, of a b] by (simp only: hdx lastx)
  obtain x0 x1 where p0: "array ! j0 = (x0, a * x0 + b)" and p1: "array ! j1 = (x1, a * x1 + b)"
    using y0 y1 by (metis prod.collapse)
  show ?thesis
    using trapezoid_linear [of x1 x0 a b]
    by (simp add: Integrate_def Let_def seg raw g1 g0 p0 p1)
qed

text \<open>
  In exact arithmetic (the floats of the source read as reals, no operation rounding):
  for \<open>x\<close> strictly increasing on the segment and boundary indices
  \<open>0 \<le> i0 < i1 < N\<close> between which \<open>y\<close> is exactly a linear function \<open>a * x + b\<close> of
  \<open>x\<close>, the Simpson sum and the trapezoid background of \<^verbatim>\<open>Integrate\<close> cancel.
\<close>

lemma Integrate_exact_linear_zero:
  assumes lo: "0 \<le> i0" and lt: "i0 < i1" and hi: "i1 < int (length array)"
    and inc: "sorted_wrt (<) (map fst (py_slice array i0 (i1 + 1)))"
    and lin: "\<forall>p \<in> set (py_slice array i0 (i1 + 1)). snd p = a * fst p + b"
  shows "Integrate array (i0, i1) = Inr 0"
proof -
  obtain j0 j1 where j: "i0 = int j0" "i1 = int j1"
    using lo lt by (metis nonneg_int_cases less_imp_le order_trans)
  have lt': "j0 < j1" and hi': "j1 < length array" using lt hi j by simp_all
  have seg: "py_slice array i0 (i1 + 1) = take (Suc j1 - j0) (drop j0 array)"
    unfolding j using py_slice_nat [of j0 "Suc j1" array] lt' hi' by (simp add: add.commute)
  show ?thesis
    unfolding j using Integrate_linear_zero_nat [OF lt' hi'] inc lin
    unfolding seg by blast
qed

text \<open>
  The spec's example in exact arithmetic: \<open>x = [0,1,2,3]\<close>, \<open>y = [0,2,4,6]\<close>,
  boundaries \<open>(0,3)\<close>, with \<open>y = 2 * x + 0\<close>.
\<close>

lemma Integrate_exact_example:
  "Integrate [(0, 0), (1, 2), (2, 4), (3, 6)] (0, 3) = Inr 0"
  using Integrate_exact_linear_zero [of 0 3 "[(0, 0), (1, 2), (2, 4), (3, 6)]" 2 0]
  by (simp add: py_slice_def norm_index_def)

section \<open>The outward scan of definepeak\<close>

lemma scan_step_armed:
  assumes "np_valid (sder ent) (i + sign)" and "np_valid (sder ent) i"
    and "np_valid (der ent) i"
  shows "scan_step ent os sd sign prange i (Some dermax) =
           (if decay_stop ent os sd dermax i then
              (case np_get (spectrum ent) i of Inl e \<Rightarrow> Inl e | Inr xy \<Rightarrow> Inr (Stop 1 i (fst xy)))
            else if sign_stop ent sign i then
              (case np_get (spectrum ent) i of Inl e \<Rightarrow> Inl e | Inr xy \<Rightarrow> Inr (Stop 2 i (fst xy)))
            else Inr (Go (Some dermax)))"
  using assms by (simp add: scan_step_def Let_def)

text \<open>In the pass that arms the lock, the two stop conditions are tested as in every later
  pass, with \<open>dermax\<close> the smoothed derivative at that index.\<close>

lemma scan_arming_step:
  assumes "np_valid (sder ent) (i + sign)" and "np_valid (sder ent) i"
    and "arming ent sign i"
  shows "scan_step ent os sd sign prange i None =
           (if np_val (sder ent) i = os then Inl (NonStandingSlope prange)
            else scan_step ent os sd sign prange i (Some (np_val (sder ent) i)))"
  using assms by (simp add: scan_step_def Let_def)

lemma scan_step_unarmed:
  assumes "np_valid (sder ent) (i + sign)" and "np_valid (sder ent) i"
    and "\<not> arming ent sign i"
  shows "scan_step ent os sd sign prange i None = Inr (Go None)"
  using assms by (simp add: scan_step_def Let_def)

text \<open>The code's decay condition, in terms of the fraction of the way from \<open>dermax\<close> to
  the outer slope that the derivative has moved: the fraction lies within \<open>slopedrop\<close>
  of 1.\<close>

lemma decay_stop_moved_fraction:
  assumes "dermax \<noteq> os"
  shows "decay_stop ent os sd dermax i =
           (\<bar>1 - spec_moved_fraction dermax os (np_val (der ent) i)\<bar> \<le> sd)"
proof -
  have "1 - (dermax - d) / (dermax - os) = (d - os) / (dermax - os)" for d
    using assms by (simp add: field_simps)
  then show ?thesis by (simp add: decay_stop_def spec_moved_fraction_def)
qed

text \<open>
  C7, as the code has it. Once the lock is armed with \<open>dermax\<close>, the scan ends at the
  first sample at which one of the two stop conditions holds. The decay condition
  \<open>\<bar>(der[i] - outerslope) / (dermax - outerslope)\<bar> \<le> slopedrop\<close> (the unsmoothed
  derivative has come within the fraction \<open>slopedrop\<close> of the way to the outer slope) is
  tested first: where it holds the reason code is 1, also if the smoothed derivative changes
  sign there; the reason code is 2 only where it fails.
\<close>

theorem scan_armed_first_stop:
  assumes "m < n"
    and "\<forall>k\<le>m. np_valid (sder ent) (i + sign * int k) \<and>
                np_valid (sder ent) (i + sign * int k + sign) \<and>
                np_valid (der ent) (i + sign * int k)"
    and "np_valid (spectrum ent) (i + sign * int m)"
    and "\<forall>k<m. \<not> decay_stop ent os sd dermax (i + sign * int k) \<and>
                \<not> sign_stop ent sign (i + sign * int k)"
    and "decay_stop ent os sd dermax (i + sign * int m) \<or> sign_stop ent sign (i + sign * int m)"
  shows "scan ent os sd sign prange i n (Some dermax) =
           Inr (Some (if decay_stop ent os sd dermax (i + sign * int m) then 1 else 2,
                      i + sign * int m,
                      fst (np_val (spectrum ent) (i + sign * int m))))"
  using assms
proof (induction m arbitrary: i n)
  case 0
  then obtain n' where n: "n = Suc n'" by (cases n) auto
  from 0 have v: "np_valid (sder ent) (i + sign)" "np_valid (sder ent) i" "np_valid (der ent) i"
    by (simp_all add: add.commute)
  from 0 show ?case
    by (auto simp: n scan_step_armed [OF v] np_get_def)
next
  case (Suc m)
  then obtain n' where n: "n = Suc n'" and mn: "m < n'" by (cases n) auto
  have v: "np_valid (sder ent) (i + sign)" "np_valid (sder ent) i" "np_valid (der ent) i"
    using Suc.prems(2) [rule_format, of 0] by (simp_all add: add.commute)
  have no: "\<not> decay_stop ent os sd dermax i" "\<not> sign_stop ent sign i"
    using Suc.prems(4) [rule_format, of 0] by simp_all
  have shift: "i + sign + sign * int k = i + sign * int (Suc k)" for k
    by (simp add: algebra_simps)
  have step: "scan ent os sd sign prange i n (Some dermax) =
              scan ent os sd sign prange (i + sign) n' (Some dermax)"
    by (simp add: n scan_step_armed [OF v] no)
  have "scan ent os sd sign prange (i + sign) n' (Some dermax) =
           Inr (Some (if decay_stop ent os sd dermax (i + sign + sign * int m) then 1 else 2,
                      i + sign + sign * int m,
                      fst (np_val (spectrum ent) (i + sign + sign * int m))))"
  proof (rule Suc.IH [OF mn])
    show "\<forall>k\<le>m. np_valid (sder ent) (i + sign + sign * int k) \<and>
                np_valid (sder ent) (i + sign + sign * int k + sign) \<and>
                np_valid (der ent) (i + sign + sign * int k)"
      unfolding shift using Suc.prems(2) by auto
    show "np_valid (spectrum ent) (i + sign + sign * int m)"
      unfolding shift using Suc.prems(3) .
    show "\<forall>k<m. \<not> decay_stop ent os sd dermax (i + sign + sign * int k) \<and>
                \<not> sign_stop ent sign (i + sign + sign * int k)"
      unfolding shift using Suc.prems(4) by auto
    show "decay_stop ent os sd dermax (i + sign + sign * int m) \<or>
          sign_stop ent sign (i + sign + sign * int m)"
      unfolding shift using Suc.prems(5) .
  qed
  then show ?case unfolding step shift .
qed

lemma ent_decay_fields:
  "sder ent_decay = [1/2, 1, 2, 5, -2, -10, -7, -4, -3/2, -1/2]"
  "der ent_decay = [1/2, 1, 2, 5, -2, -10, -7, -4, -3/2, -1/2]"
  "length (spectrum ent_decay) = 11"
  "mai ent_decay = [4]"
  "fullname ent_decay = ''Fe-56-n-g''"
  by (simp_all add: ent_decay_def)

lemma ent_decay_x: "k < 11 \<Longrightarrow> fst (spectrum ent_decay ! k) = real k"
  by (auto simp: ent_decay_def less_Suc_eq numeral_eq_Suc)

text \<open>
  C7 on \<open>ent_decay\<close>, scanning right with the lock armed at index 5 with
  \<open>dermax = - 10\<close>, outer slope 0 and \<open>slopedrop = 1/5\<close>: the passes at 5, 6 and 7 do
  not stop, the pass at 8 stops with reason 1.
\<close>

theorem scan_armed_first_stop_witness:
  "(3::nat) < 4 \<and> np_valid (spectrum ent_decay) (5 + 1 * int 3) \<and>
   decay_stop ent_decay 0 (1/5) (- 10) (5 + 1 * int 3) \<and>
   scan ent_decay 0 (1/5) 1 4 5 4 (Some (- 10)) = Inr (Some (1, 8, 8))"
proof -
  have v: "\<forall>k\<le>3. np_valid (sder ent_decay) (5 + 1 * int k) \<and>
                np_valid (sder ent_decay) (5 + 1 * int k + 1) \<and>
                np_valid (der ent_decay) (5 + 1 * int k)"
    by (simp add: np_valid_def ent_decay_fields)
  have s: "np_valid (spectrum ent_decay) (5 + 1 * int 3)"
    by (simp add: np_valid_def ent_decay_fields)
  have b: "\<forall>k<3. \<not> decay_stop ent_decay 0 (1/5) (- 10) (5 + 1 * int k) \<and>
                \<not> sign_stop ent_decay 1 (5 + 1 * int k)"
    by (auto simp: decay_stop_def sign_stop_def np_val_def ent_decay_fields
                   less_Suc_eq numeral_eq_Suc)
  have a: "decay_stop ent_decay 0 (1/5) (- 10) (5 + 1 * int 3)"
    by (simp add: decay_stop_def np_val_def ent_decay_fields)
  have x: "fst (np_val (spectrum ent_decay) 8) = 8"
    using ent_decay_x [of 8] by (simp add: np_val_def)
  show ?thesis
    using scan_armed_first_stop [of 3 4 ent_decay 5 1 0 "1/5" "- 10" 4, OF _ v s b] a s x
    by simp
qed

text \<open>
  C7 as the spec states it fails. On \<open>ent_decay\<close> the right scan from the center 4 arms at
  index 5 with \<open>dermax = - 10\<close> (outer slope 0, \<open>slopedrop = 1/5\<close>). At index 6 the
  unsmoothed derivative is \<open>- 7\<close>: it has moved 3/10 of the way from \<open>dermax\<close> to the
  outer slope, at least \<open>slopedrop\<close>, and it is the first such sample. The decay stop
  does not fire there; it fires at index 8, where the derivative has moved 17/20 of the way.
\<close>

theorem scan_decay_fraction_counterexample:
  "scan_step ent_decay 0 (1/5) 1 4 5 None = Inr (Go (Some (- 10))) \<and>
   spec_moved_fraction (- 10) 0 (np_val (der ent_decay) 5) < 1/5 \<and>
   spec_moved_fraction (- 10) 0 (np_val (der ent_decay) 6) \<ge> 1/5 \<and>
   scan_step ent_decay 0 (1/5) 1 4 6 (Some (- 10)) = Inr (Go (Some (- 10))) \<and>
   scan ent_decay 0 (1/5) 1 4 4 5 None = Inr (Some (1, 8, 8))"
proof -
  have x: "fst (np_val (spectrum ent_decay) 8) = 8"
    using ent_decay_x [of 8] by (simp add: np_val_def)
  have five: "(5::nat) = Suc (Suc (Suc (Suc (Suc 0))))" by simp
  have "scan ent_decay 0 (1/5) 1 4 4 5 None = Inr (Some (1, 8, 8))"
    unfolding five
    by (simp add: scan_step_def arming_def decay_stop_def sign_stop_def np_valid_def np_val_def
                  np_get_def ent_decay_fields x [unfolded np_val_def, simplified])
  then show ?thesis
    by (simp add: scan_step_def arming_def decay_stop_def sign_stop_def np_valid_def np_val_def
                  spec_moved_fraction_def ent_decay_fields)
qed

section \<open>Failure of definepeak\<close>

lemma definepeak_logs:
  assumes "definepeak_try ext ent npeak prange ps = Inl e"
  shows "definepeak ext ent npeak prange ps sink =
           (sentinel_bounds, sink @ [(e, ''definepeak'', fullname ent, npeak)])"
  using assms by (simp add: definepeak_def err_add_def)

text \<open>A scan whose lock is armed at a sample where the smoothed derivative equals the
  outer slope raises "Non-standing slope".\<close>

lemma scan_nonstanding:
  assumes "m < n" and "first_arming ent sign c m"
    and "np_val (sder ent) (c + sign * int m) = os"
  shows "scan ent os sd sign prange c n None = Inl (NonStandingSlope prange)"
  using assms
proof (induction m arbitrary: c n)
  case 0
  then obtain n' where n: "n = Suc n'" by (cases n) auto
  from 0 have "np_valid (sder ent) (c + sign)" "np_valid (sder ent) c" "arming ent sign c"
    by (simp_all add: first_arming_def add.commute)
  then show ?case using 0 by (simp add: n scan_arming_step)
next
  case (Suc m)
  then obtain n' where n: "n = Suc n'" and mn: "m < n'" by (cases n) auto
  have shift: "c + sign + sign * int k = c + sign * int (Suc k)" for k
    by (simp add: algebra_simps)
  from Suc.prems(2) have v: "np_valid (sder ent) (c + sign)" "np_valid (sder ent) c"
    and na: "\<not> arming ent sign c"
    unfolding first_arming_def
    by (metis le0 of_nat_0 mult_zero_right add.right_neutral add.commute,
        metis le0 of_nat_0 mult_zero_right add.right_neutral,
        metis zero_less_Suc of_nat_0 mult_zero_right add.right_neutral)
  have fa: "first_arming ent sign (c + sign) m"
    using Suc.prems(2) unfolding first_arming_def shift by auto
  have "scan ent os sd sign prange (c + sign) n' None = Inl (NonStandingSlope prange)"
    using Suc.IH [OF mn fa] Suc.prems(3) unfolding shift by simp
  then show ?case by (simp add: n scan_step_unarmed [OF v na])
qed

text \<open>
  C8. Let the center be read and the outer slope be estimated, and let \<open>L\<close> and \<open>R\<close> be
  the results of the left and the right scan. If a scan ends without a boundary (fewer than
  two boundaries), or both scans end at one x-value, or the lock of a scan is armed at a
  sample whose smoothed derivative equals the outer slope, then \<^verbatim>\<open>definepeak\<close> returns
  \<open>((0,0), (0,0), (0,0), (0,0))\<close> and has appended to the error sink one entry with the
  exception, \<^verbatim>\<open>'definepeak'\<close>, the entity name and the candidate index.
\<close>

theorem definepeak_failure_sentinel:
  assumes c: "np_get (mai ent) npeak = Inr c"
    and o: "outer_slope ext ps (py_slice (sder ent) (c - prange) (c + prange + 1)) = Inr (os, bw)"
    and L: "scan ent os (slopedrop ps) (- 1) prange c (nat (prange + 1)) None = L"
    and R: "scan ent os (slopedrop ps) 1 prange c (nat (prange + 1)) None = R"
    and fail: "L = Inr None \<or> R = Inr None \<or>
               (\<exists>r0 i0 r1 i1 x. L = Inr (Some (r0, i0, x)) \<and> R = Inr (Some (r1, i1, x))) \<or>
               (\<exists>m sign. (sign = - 1 \<or> sign = 1) \<and> int m \<le> prange \<and> first_arming ent sign c m \<and>
                          np_val (sder ent) (c + sign * int m) = os)"
  shows "\<exists>e. definepeak ext ent npeak prange ps sink =
           (((0, 0), (0, 0), (0, 0), (0, 0)), sink @ [(e, ''definepeak'', fullname ent, npeak)])"
proof -
  have ns: "L = Inl (NonStandingSlope prange) \<or> R = Inl (NonStandingSlope prange)"
    if "sign = - 1 \<or> sign = 1" and "int m \<le> prange" and "first_arming ent sign c m"
      and "np_val (sder ent) (c + sign * int m) = os" for m sign
  proof -
    have "m < nat (prange + 1)" using that(2) by simp
    then have "scan ent os (slopedrop ps) sign prange c (nat (prange + 1)) None =
               Inl (NonStandingSlope prange)"
      using that(3,4) by (rule scan_nonstanding)
    then show ?thesis using that(1) L R by auto
  qed
  have "\<exists>e. definepeak_try ext ent npeak prange ps = Inl e"
    using fail ns
    by (auto simp: definepeak_try_def c o L R split: sum.splits option.splits)
  then show ?thesis using definepeak_logs [of ext ent npeak prange ps]
    by (auto simp: sentinel_bounds_def)
qed

lemma outer_slope_ent_decay:
  "outer_slope ext_plain params_max100 (py_slice (sder ent_decay) (4 - 3) (4 + 3 + 1)) = Inr (0, 1)"
  by (simp add: outer_slope_def ext_plain_def params_max100_def py_slice_def norm_index_def
                ent_decay_fields np_unique_counts_def np_argmax_def Let_def upt_conv_Cons)

lemma scan_ent_decay_radius3:
  "scan ent_decay 0 (1/5) (- 1) 3 4 4 None = Inr (Some (1, 1, 1))"
  "scan ent_decay 0 (1/5) 1 3 4 4 None = Inr None"
proof -
  have x: "fst ([(0::real, 0::real), (1, 1/2), (2, 3/2), (3, 7/2), (4, 17/2), (5, 13/2), (6, -7/2),
                   (7, -21/2), (8, -29/2), (9, -16), (10, -33/2)] ! 1) = 1" by simp
  have four: "(4::nat) = Suc (Suc (Suc (Suc 0)))" by simp
  show "scan ent_decay 0 (1/5) (- 1) 3 4 4 None = Inr (Some (1, 1, 1))"
    unfolding four
    by (simp add: scan_step_def arming_def decay_stop_def sign_stop_def np_valid_def np_val_def
                  np_get_def ent_decay_fields)
       (simp add: ent_decay_def)
  show "scan ent_decay 0 (1/5) 1 3 4 4 None = Inr None"
    unfolding four
    by (simp add: scan_step_def arming_def decay_stop_def sign_stop_def np_valid_def np_val_def
                  np_get_def ent_decay_fields)
qed

lemma definepeak_ent_decay_radius3:
  "definepeak ext_plain ent_decay 0 3 params_max100 [] =
     (((0, 0), (0, 0), (0, 0), (0, 0)),
      [(UnableToDefinePeak 3, ''definepeak'', ''Fe-56-n-g'', 0)])"
proof -
  have c: "np_get (mai ent_decay) 0 = Inr 4"
    by (simp add: np_get_def np_valid_def np_val_def ent_decay_fields)
  have sd: "slopedrop params_max100 = 1/5" by (simp add: params_max100_def)
  have "definepeak_try ext_plain ent_decay 0 3 params_max100 = Inl (UnableToDefinePeak 3)"
    using outer_slope_ent_decay scan_ent_decay_radius3 by (simp add: definepeak_try_def c sd)
  then show ?thesis
    by (simp add: definepeak_def err_add_def sentinel_bounds_def ent_decay_fields)
qed

text \<open>
  C8 on \<open>ent_decay\<close> with search radius 3: the right scan uses up its four passes
  without a stop, so only the left boundary is produced.
\<close>

theorem definepeak_failure_sentinel_witness:
  "np_get (mai ent_decay) 0 = Inr 4 \<and>
   outer_slope ext_plain params_max100 (py_slice (sder ent_decay) (4 - 3) (4 + 3 + 1)) = Inr (0, 1) \<and>
   scan ent_decay 0 (slopedrop params_max100) 1 3 4 (nat (3 + 1)) None = Inr None \<and>
   definepeak ext_plain ent_decay 0 3 params_max100 [] =
     (((0, 0), (0, 0), (0, 0), (0, 0)),
      [(UnableToDefinePeak 3, ''definepeak'', ''Fe-56-n-g'', 0)])"
proof -
  have c: "np_get (mai ent_decay) 0 = Inr 4"
    by (simp add: np_get_def np_valid_def np_val_def ent_decay_fields)
  have R: "scan ent_decay 0 (slopedrop params_max100) 1 3 4 (nat (3 + 1)) None = Inr None"
    using scan_ent_decay_radius3(2) by (simp add: params_max100_def)
  show ?thesis
    using definepeak_failure_sentinel [OF c outer_slope_ent_decay refl refl, of "[]"] c
      outer_slope_ent_decay R definepeak_ent_decay_radius3
    by simp
qed

text \<open>
  The other two ways to fail, on worked inputs. On \<open>ent_bump\<close> with search radius 1
  both scans arm at the center and stop there at once (the unsmoothed derivative is within
  \<open>slopedrop\<close> of the outer slope), so both boundaries are the x-value 2: a zero-width
  peak.
\<close>

lemma definepeak_ent_bump_zero_width:
  "definepeak ext_plain ent_bump 0 1 params_max100 [] =
     (((0, 0), (0, 0), (0, 0), (0, 0)),
      [(ZeroWidthPeak 1, ''definepeak'', ''Fe-56-n-g'', 0)])"
proof -
  have f: "sder ent_bump = [- 99 / 2, - 100 / 3, 100 / 3, 99 / 2]" "der ent_bump = [- 100, 1, - 1, 100]"
    "mai ent_bump = [2]" "fullname ent_bump = ''Fe-56-n-g''"
    "spectrum ent_bump = [(0, 0), (1, - 100), (2, - 99), (3, - 100), (4, 0)]"
    by (simp_all add: ent_bump_def)
  have o: "outer_slope ext_plain params_max100 (py_slice (sder ent_bump) (2 - 1) (2 + 1 + 1)) = Inr (0, 1)"
    by (simp add: outer_slope_def ext_plain_def params_max100_def py_slice_def norm_index_def
                  f np_unique_counts_def np_argmax_def Let_def upt_conv_Cons)
  have two: "(2::nat) = Suc (Suc 0)" by simp
  have l: "scan ent_bump 0 (1/5) (- 1) 1 2 2 None = Inr (Some (1, 2, 2))"
    unfolding two
    by (simp add: scan_step_def arming_def decay_stop_def sign_stop_def np_valid_def np_val_def
                  np_get_def f)
  have r: "scan ent_bump 0 (1/5) 1 1 2 2 None = Inr (Some (1, 2, 2))"
    unfolding two
    by (simp add: scan_step_def arming_def decay_stop_def sign_stop_def np_valid_def np_val_def
                  np_get_def f)
  have c: "np_get (mai ent_bump) 0 = Inr 2"
    by (simp add: np_get_def np_valid_def np_val_def f)
  have sd: "slopedrop params_max100 = 1/5" by (simp add: params_max100_def)
  have "definepeak_try ext_plain ent_bump 0 1 params_max100 = Inl (ZeroWidthPeak 1)"
    using o l r by (simp add: definepeak_try_def c sd)
  then show ?thesis
    by (simp add: definepeak_def err_add_def sentinel_bounds_def f)
qed

text \<open>
  On \<open>ent_slope\<close> with search radius 3 the most frequent slope around the center is 1,
  and the left scan arms at index 1, where the smoothed derivative is that outer slope: a
  non-standing slope.
\<close>

lemma definepeak_ent_slope_non_standing:
  "definepeak ext_fine ent_slope 0 3 params_max100 [] =
     (((0, 0), (0, 0), (0, 0), (0, 0)),
      [(NonStandingSlope 3, ''definepeak'', ''Fe-56-n-g'', 0)])"
proof -
  have f: "sder ent_slope = [0, 1, 1, 1, - 2, - 1, 0, 0]" "der ent_slope = [0, 1, 1, 1, - 2, - 1, 0, 0]"
    "mai ent_slope = [4]" "fullname ent_slope = ''Fe-56-n-g''"
    by (simp_all add: ent_slope_def)
  have o: "outer_slope ext_fine params_max100 (py_slice (sder ent_slope) (4 - 3) (4 + 3 + 1)) = Inr (1, 1)"
    by (simp add: outer_slope_def ext_fine_def ext_plain_def params_max100_def py_slice_def
                  norm_index_def f np_unique_counts_def np_argmax_def Let_def upt_conv_Cons)
  have four: "(4::nat) = Suc (Suc (Suc (Suc 0)))" by simp
  have l: "scan ent_slope 1 (1/5) (- 1) 3 4 4 None = Inl (NonStandingSlope 3)"
    unfolding four
    by (simp add: scan_step_def arming_def decay_stop_def sign_stop_def np_valid_def np_val_def
                  np_get_def f)
  have c: "np_get (mai ent_slope) 0 = Inr 4"
    by (simp add: np_get_def np_valid_def np_val_def f)
  have sd: "slopedrop params_max100 = 1/5" by (simp add: params_max100_def)
  have "definepeak_try ext_fine ent_slope 0 3 params_max100 = Inl (NonStandingSlope 3)"
    using o l by (simp add: definepeak_try_def c sd)
  then show ?thesis
    by (simp add: definepeak_def err_add_def sentinel_bounds_def f)
qed

section \<open>computepeak: sentinel values and exceptions\<close>

lemma bind_err_eq_Inr: "(bind_err m f = Inr y) = (\<exists>v. m = Inr v \<and> f v = Inr y)"
  by (cases m) auto

lemma peak_info_sentinel:
  assumes "peak_info ext ent peakpos prange crd ctof ic ctof_mode lims = Inr pk"
    and "xlims pk = (0, 0)"
  shows "width pk = - 1 \<and> height pk = - 1 \<and> fwhm pk = 0 \<and> integral pk = 0 \<and> integral_tof pk = 0"
proof -
  obtain xl il os pr edited where lims: "lims = ((xl, il, os, pr), edited)"
    by (metis prod.exhaust)
  show ?thesis
  proof (cases "xl = (0, 0)")
    case True
    then show ?thesis using assms(1) by (auto simp: peak_info_def lims Let_def)
  next
    case False
    have "xlims pk = xl"
      using assms(1) False
      by (auto simp: peak_info_def lims Let_def bind_err_eq_Inr)
    then show ?thesis using assms(2) False by simp
  qed
qed

lemma computepeak_returns:
  assumes "computepeak ext ent peakpos prange ps setx sink = (Inr pk, sink')"
  shows "\<exists>crd ctof ic ctof_mode lims.
           peak_info ext ent peakpos prange crd ctof ic ctof_mode lims = Inr pk"
proof -
  from assms obtain info sink1 where
    i: "computepeak_info ext ent peakpos prange ps setx sink = (Inr info, sink1)"
    and p: "Peak_init ext info = Inr pk"
    by (auto simp: computepeak_def split: prod.splits sum.splits)
  have "pk = info" using p by (simp add: Peak_init_def split: if_splits)
  then show ?thesis
    using i
    by (simp add: computepeak_info_def split: sum.splits prod.splits del: split_paired_Ex) blast
qed

text \<open>
  C3. Every Peak that \<^verbatim>\<open>computepeak\<close> returns with the boundary x-pair \<open>(0, 0)\<close> has
  width \<open>- 1\<close>, height \<open>- 1\<close>, fwhm 0, and integral 0 in both domains.
\<close>

theorem computepeak_sentinel_consistency:
  assumes "computepeak ext ent peakpos prange ps setx sink = (Inr pk, sink')"
    and "xlims pk = (0, 0)"
  shows "width pk = - 1 \<and> height pk = - 1 \<and> fwhm pk = 0 \<and> integral pk = 0 \<and>
         integral_tof pk = 0"
  using computepeak_returns [OF assms(1)] peak_info_sentinel assms(2) by blast

lemma computepeak_ent_decay_radius3:
  "computepeak ext_plain ent_decay 0 3 params_max100 None [] =
     (Inr (peak0\<lparr>center := 4, icenter := 4, center_tof := 4, coords := (4, 17/2),
                 coords_tof := (4, 17/2), prange_pk := 3\<rparr>),
      [(UnableToDefinePeak 3, ''definepeak'', ''Fe-56-n-g'', 0)])"
proof -
  have m: "ma ent_decay = [(4, 17/2)]" "mode ent_decay = ''n-g''"
    by (simp_all add: ent_decay_def)
  have e: "E2t ext_plain = (\<lambda>x m. Inr x)" "peakattr_size ext_plain = 29"
    by (simp_all add: ext_plain_def)
  show ?thesis
    by (simp add: computepeak_def computepeak_info_def peak_limits_def peak_info_def Peak_init_def
                  definepeak_ent_decay_radius3 np_get_def np_valid_def np_val_def
                  ent_decay_fields m e peak0_def Let_def)
qed

text \<open>
  C3 on \<open>ent_decay\<close> with search radius 3, where \<^verbatim>\<open>definepeak\<close> fails: the Peak
  returned has the boundary pair \<open>(0, 0)\<close> and the sentinel values.
\<close>

theorem computepeak_sentinel_consistency_witness:
  "fst (computepeak ext_plain ent_decay 0 3 params_max100 None []) =
     Inr (peak0\<lparr>center := 4, icenter := 4, center_tof := 4, coords := (4, 17/2),
                 coords_tof := (4, 17/2), prange_pk := 3\<rparr>) \<and>
   xlims (peak0\<lparr>center := 4, icenter := 4, center_tof := 4, coords := (4, 17/2),
                 coords_tof := (4, 17/2), prange_pk := 3\<rparr>) = (0, 0) \<and>
   width (peak0\<lparr>center := 4, icenter := 4, center_tof := 4, coords := (4, 17/2),
                 coords_tof := (4, 17/2), prange_pk := 3\<rparr>) = - 1 \<and>
   integral (peak0\<lparr>center := 4, icenter := 4, center_tof := 4, coords := (4, 17/2),
                 coords_tof := (4, 17/2), prange_pk := 3\<rparr>) = 0"
proof -
  have x: "xlims (peak0\<lparr>center := 4, icenter := 4, center_tof := 4, coords := (4, 17/2),
                 coords_tof := (4, 17/2), prange_pk := 3\<rparr>) = (0, 0)"
    by (simp add: peak0_def)
  show ?thesis
    using computepeak_sentinel_consistency [OF computepeak_ent_decay_radius3 x]
      computepeak_ent_decay_radius3 x
    by simp
qed

text \<open>
  An exception raised in the \<^verbatim>\<open>try\<close> of \<^verbatim>\<open>computepeak\<close> before \<^verbatim>\<open>info\<close> is
  bound is logged with candidate index \<open>- 1\<close>, and then the handler's own
  \<^verbatim>\<open>Peak(info)\<close> raises: no Peak is returned.
\<close>

lemma computepeak_raises:
  assumes "computepeak_info ext ent peakpos prange ps setx sink = (Inl e, sink1)"
  shows "computepeak ext ent peakpos prange ps setx sink =
           (Inl UnboundLocalError, sink1 @ [(e, ''computepeak'', fullname ent, - 1)])"
  using assms by (simp add: computepeak_def err_add_def)

text \<open>
  C4 fails on the code. On \<open>ent_decay\<close>, which has one maximum, \<^verbatim>\<open>computepeak\<close>
  with \<open>peakpos = 1\<close> raises IndexError at \<^verbatim>\<open>self.ma[0,peakpos]\<close>; the handler logs
  it (with index \<open>- 1\<close>, not the candidate's) and then raises UnboundLocalError instead of
  returning a sentinel Peak.
\<close>

theorem computepeak_exception_escapes:
  "computepeak ext_plain ent_decay 1 3 params_max100 None [] =
     (Inl UnboundLocalError, [(IndexError, ''computepeak'', ''Fe-56-n-g'', - 1)])"
proof -
  have m: "ma ent_decay = [(4, 17/2)]" by (simp add: ent_decay_def)
  show ?thesis
    by (simp add: computepeak_def computepeak_info_def np_get_def np_valid_def m err_add_def
                  ent_decay_fields)
qed

section \<open>maxima smooths, minima does not\<close>

text \<open>\<^verbatim>\<open>maxima\<close> smooths first: it is the search on the smoothed array.\<close>

lemma maxima_smooths_first:
  "maxima ext arr xbounds ybounds smoothing =
     bind_err (Smooth ext arr smoothing)
       (\<lambda>smoothed. maxima (ext\<lparr>Smooth := \<lambda>a n. Inr a\<rparr>) smoothed xbounds ybounds smoothing)"
  by (cases "Smooth ext arr smoothing") (simp_all add: maxima_def)

text \<open>
  C9 fails on the code. \<^verbatim>\<open>minima\<close> never calls \<^verbatim>\<open>Smooth\<close>: its result is the same
  for every smoothing function and every smoothing count, namely the result on the array as
  given (count 0).
\<close>

theorem minima_ignores_smoothing:
  "minima (ext\<lparr>Smooth := sm\<rparr>) arr xbounds ybounds smoothing = minima ext arr xbounds ybounds 0"
  by (simp add: minima_def)

section \<open>sorting: ranks are permutations\<close>

lemma perm_length: "mset p = mset [0..<n] \<Longrightarrow> length p = n"
  by (metis length_upt diff_zero size_mset)

lemma perm_set: "mset p = mset [0..<n] \<Longrightarrow> set p = {0..<n}"
  by (metis set_mset_mset set_upt)

lemma perm_distinct: "mset p = mset [0..<n] \<Longrightarrow> distinct p"
  by (metis distinct_upt mset_eq_imp_distinct_iff)

lemma perm_nth_lt: "mset p = mset [0..<n] \<Longrightarrow> i < n \<Longrightarrow> p ! i < n"
  using perm_set [of p n] perm_length [of p n] nth_mem [of i p] by auto

lemma mset_map_nth_perm:
  assumes "mset p = mset [0..<length xs]"
  shows "mset (map ((!) xs) p) = mset xs"
proof -
  have "mset (map ((!) xs) p) = image_mset ((!) xs) (mset [0..<length xs])"
    using assms by simp
  also have "\<dots> = mset (map ((!) xs) [0..<length xs])" by simp
  also have "\<dots> = mset xs" by (simp add: map_nth)
  finally show ?thesis .
qed

lemma argsort_perm: "is_argsort f \<Longrightarrow> mset (f xs) = mset [0..<length xs]"
  by (simp add: is_argsort_def)

lemma argsort_sorted: "is_argsort f \<Longrightarrow> sorted (map ((!) xs) (f xs))"
  by (simp add: is_argsort_def)

lemma sorted_perm_upt:
  assumes "mset q = mset [0..<n]" and "sorted q"
  shows "q = [0..<n]"
  using assms by (metis properties_for_sort sorted_sort_id sorted_upt)

text \<open>The second argsort inverts the first.\<close>
lemma rank_row_inverse:
  assumes f: "is_argsort f" and p: "mset p = mset [0..<n]" and j: "j < n"
  shows "p ! (f (map real p) ! j) = j"
proof -
  let ?r = "f (map real p)"
  have lp: "length p = n" using p by (rule perm_length)
  have r: "mset ?r = mset [0..<n]" using argsort_perm [OF f, of "map real p"] lp by simp
  have lr: "length ?r = n" using r by (rule perm_length)
  have rlt: "\<And>i. i \<in> set ?r \<Longrightarrow> i < n" using perm_set [OF r] by auto
  have "sorted (map ((!) (map real p)) ?r)" using argsort_sorted [OF f] .
  moreover have "map ((!) (map real p)) ?r = map real (map ((!) p) ?r)"
    using rlt lp by simp
  ultimately have "sorted (map real (map ((!) p) ?r))" by simp
  then have s: "sorted (map ((!) p) ?r)"
    by (simp add: sorted_wrt_map)
  have "mset (map ((!) p) ?r) = mset p"
    using mset_map_nth_perm [of ?r p] r lp by simp
  then have "mset (map ((!) p) ?r) = mset [0..<n]" using p by simp
  then have "map ((!) p) ?r = [0..<n]" using s by (rule sorted_perm_upt)
  then have "map ((!) p) ?r ! j = [0..<n] ! j" by simp
  then show ?thesis using j lr by simp
qed

lemma rank_row_perm:
  assumes f: "is_argsort f"
  shows "mset (rank_row f xs) = mset [0..<length xs]"
proof -
  have "length (f xs) = length xs" using argsort_perm [OF f, of xs] by (rule perm_length)
  then show ?thesis
    unfolding rank_row_def using argsort_perm [OF f, of "map real (f xs)"] by simp
qed

lemma rank_row_right_inverse:
  assumes f: "is_argsort f" and j: "j < length xs"
  shows "f xs ! (rank_row f xs ! j) = j"
  unfolding rank_row_def using rank_row_inverse [OF f argsort_perm [OF f] j] .

lemma rank_row_left_inverse:
  assumes f: "is_argsort f" and i: "i < length xs"
  shows "rank_row f xs ! (f xs ! i) = i"
proof -
  let ?p = "f xs" and ?r = "rank_row f xs"
  have p: "mset ?p = mset [0..<length xs]" using argsort_perm [OF f] .
  have r: "mset ?r = mset [0..<length xs]" using rank_row_perm [OF f] .
  have pi: "?p ! i < length xs" using perm_nth_lt [OF p i] .
  have ri: "?r ! (?p ! i) < length xs" using perm_nth_lt [OF r pi] .
  have "?p ! (?r ! (?p ! i)) = ?p ! i" using rank_row_right_inverse [OF f pi] .
  then show ?thesis
    using nth_eq_iff_index_eq [OF perm_distinct [OF p], of "?r ! (?p ! i)" i]
      perm_length [OF p] ri i by simp
qed

lemma length_neg_rows: "k < 6 \<Longrightarrow> length (neg_rows ps ! k) = length ps"
  by (auto simp: neg_rows_def nth_Cons' less_Suc_eq numeral_eq_Suc)

lemma neg_rows_nth:
  "neg_rows ps ! 0 = map uminus (map integral ps)"
  "neg_rows ps ! 1 = map uminus (map width ps)"
  "neg_rows ps ! 2 = map uminus (map height ps)"
  "neg_rows ps ! 3 = map uminus (map fwhm ps)"
  "neg_rows ps ! 4 = map uminus (map ahh ps)"
  "neg_rows ps ! 5 = map uminus (map ahw ps)"
  by (simp_all add: neg_rows_def)

lemma length_sorting [simp]: "length (sorting f inp) = length inp"
  by (simp add: sorting_def Let_def)

lemma map_fst_sorting: "map fst (sorting f inp) = [0..<length inp]"
  by (simp add: sorting_def Let_def comp_def)

lemma sorting_nth:
  assumes f: "is_argsort f" and i: "i < length inp"
  shows "sorting f inp ! i =
     (i, set_ranks (map (rank_row f) (neg_rows (map snd inp))) (map snd inp)
                   (f (neg_rows (map snd inp) ! 0) ! i))"
proof -
  have "mset (f (neg_rows (map snd inp) ! 0)) = mset [0..<length inp]"
    using argsort_perm [OF f, of "neg_rows (map snd inp) ! 0"] by (simp add: length_neg_rows)
  then have "f (neg_rows (map snd inp) ! 0) ! i < length inp"
    using i by (rule perm_nth_lt)
  then show ?thesis using i by (simp add: sorting_def Let_def)
qed

lemma set_ranks_fields:
  "integral_rank (set_ranks rs ps el) = int (rs ! 0 ! el)"
  "width_rank (set_ranks rs ps el) = int (rs ! 1 ! el)"
  "height_rank (set_ranks rs ps el) = int (rs ! 2 ! el)"
  "fwhm_rank (set_ranks rs ps el) = int (rs ! 3 ! el)"
  "ahh_rank (set_ranks rs ps el) = int (rs ! 4 ! el)"
  "ahw_rank (set_ranks rs ps el) = int (rs ! 5 ! el)"
  "num (set_ranks rs ps el) = int (rs ! 0 ! el)"
  "integral (set_ranks rs ps el) = integral (ps ! el)"
  "width (set_ranks rs ps el) = width (ps ! el)"
  "height (set_ranks rs ps el) = height (ps ! el)"
  "fwhm (set_ranks rs ps el) = fwhm (ps ! el)"
  "ahh (set_ranks rs ps el) = ahh (ps ! el)"
  "ahw (set_ranks rs ps el) = ahw (ps ! el)"
  by (simp_all add: set_ranks_def)

lemma map_nth_upt: "length s = n \<Longrightarrow> map (\<lambda>i. g (s ! i)) [0..<n] = map g s"
  by (rule nth_equalityI) simp_all

text \<open>A rank column of the output, read through any field \<open>c\<close> that \<open>set_ranks\<close>
  fills from row \<open>k\<close>, is a permutation of \<open>0..N-1\<close>.\<close>
lemma sorting_column_perm:
  assumes f: "is_argsort f" and k: "k < 6"
    and c: "\<And>rs ps el. c (set_ranks rs ps el) = int (rs ! k ! el)"
  shows "mset (map (c \<circ> snd) (sorting f inp)) = mset (map int [0..<length inp])"
proof -
  let ?N = "length inp"
  let ?ps = "map snd inp"
  let ?s = "f (neg_rows ?ps ! 0)"
  let ?r = "rank_row f (neg_rows ?ps ! k)"
  have lrow: "length (neg_rows ?ps ! k) = ?N"
    using k by (simp add: length_neg_rows)
  have s: "mset ?s = mset [0..<?N]"
    using argsort_perm [OF f, of "neg_rows ?ps ! 0"] by (simp add: length_neg_rows)
  have r: "mset ?r = mset [0..<?N]" using rank_row_perm [OF f, of "neg_rows ?ps ! k"] lrow by simp
  have lr: "length ?r = ?N" using r by (rule perm_length)
  have ls: "length ?s = ?N" using s by (rule perm_length)
  have "length (neg_rows ?ps) = 6" by (simp add: neg_rows_def)
  then have kk: "map (rank_row f) (neg_rows ?ps) ! k = ?r"
    using k by simp
  have "map (c \<circ> snd) (sorting f inp) = map (\<lambda>i. int (?r ! (?s ! i))) [0..<?N]"
    by (rule nth_equalityI) (simp_all add: sorting_nth [OF f] c kk)
  also have "\<dots> = map int (map ((!) ?r) ?s)"
    using map_nth_upt [OF ls, of "\<lambda>j. int (?r ! j)"] by simp
  finally have "map (c \<circ> snd) (sorting f inp) = map int (map ((!) ?r) ?s)" .
  then have "mset (map (c \<circ> snd) (sorting f inp)) = image_mset int (mset (map ((!) ?r) ?s))"
    by (simp only: mset_map)
  also have "mset (map ((!) ?r) ?s) = mset ?r"
    using mset_map_nth_perm [of ?s ?r] s lr by simp
  finally show ?thesis using r by (simp only: mset_map)
qed

lemma sorting_integral_rank_position:
  assumes f: "is_argsort f" and i: "i < length inp"
  shows "integral_rank (snd (sorting f inp ! i)) = int i"
proof -
  let ?row = "neg_rows (map snd inp) ! 0"
  have "length (neg_rows (map snd inp)) = 6" by (simp add: neg_rows_def)
  then have r0: "map (rank_row f) (neg_rows (map snd inp)) ! 0 = rank_row f ?row" by simp
  have "rank_row f ?row ! (f ?row ! i) = i"
    using rank_row_left_inverse [OF f, of i ?row] i by (simp add: length_neg_rows)
  then show ?thesis
    by (simp add: sorting_nth [OF f i] set_ranks_fields r0)
qed

lemma sorting_integrals:
  assumes f: "is_argsort f"
  shows "map (integral \<circ> snd) (sorting f inp) =
         map ((!) (map integral (map snd inp))) (f (neg_rows (map snd inp) ! 0))"
proof -
  let ?row = "neg_rows (map snd inp) ! 0"
  have s: "mset (f ?row) = mset [0..<length inp]"
    using argsort_perm [OF f, of ?row] by (simp add: length_neg_rows)
  have ls: "length (f ?row) = length inp" using s by (rule perm_length)
  have "map (integral \<circ> snd) (sorting f inp) =
        map (\<lambda>i. map integral (map snd inp) ! (f ?row ! i)) [0..<length inp]"
  proof (rule nth_equalityI)
    show "length (map (integral \<circ> snd) (sorting f inp)) =
          length (map (\<lambda>i. map integral (map snd inp) ! (f ?row ! i)) [0..<length inp])"
      by simp
  next
    fix i assume "i < length (map (integral \<circ> snd) (sorting f inp))"
    then have i: "i < length inp" by simp
    have "f ?row ! i < length inp" using perm_nth_lt [OF s i] .
    then show "map (integral \<circ> snd) (sorting f inp) ! i =
          map (\<lambda>i. map integral (map snd inp) ! (f ?row ! i)) [0..<length inp] ! i"
      using i by (simp add: sorting_nth [OF f i] set_ranks_fields)
  qed
  then show ?thesis using map_nth_upt [OF ls, of "(!) (map integral (map snd inp))"] by simp
qed

lemma sorted_uminus_rev: "sorted (map uminus xs) \<Longrightarrow> sorted (rev (xs :: real list))"
  by (simp add: sorted_wrt_map sorted_wrt_rev)

lemma sorting_integrals_decreasing:
  assumes f: "is_argsort f"
  shows "sorted (rev (map (integral \<circ> snd) (sorting f inp)))"
proof -
  define ints where "ints = map integral (map snd inp)"
  define s where "s = f (neg_rows (map snd inp) ! 0)"
  have row: "neg_rows (map snd inp) ! 0 = map uminus ints"
    unfolding ints_def by (simp only: neg_rows_nth)
  have "mset s = mset [0..<length inp]"
    unfolding s_def using argsort_perm [OF f, of "neg_rows (map snd inp) ! 0"]
    by (simp add: length_neg_rows)
  then have lt: "\<forall>x\<in>set s. x < length ints"
    using perm_set [of s "length inp"] by (simp add: ints_def)
  have "sorted (map ((!) (map uminus ints)) s)"
    unfolding s_def row [symmetric] using argsort_sorted [OF f] .
  moreover have "map ((!) (map uminus ints)) s = map uminus (map ((!) ints) s)"
    using lt by simp
  ultimately have "sorted (map uminus (map ((!) ints) s))"
    by (simp only:)
  then have "sorted (rev (map ((!) ints) s))"
    by (rule sorted_uminus_rev)
  then show ?thesis using sorting_integrals [OF f, of inp] by (simp add: ints_def s_def)
qed

lemma sorting_integrals_mset:
  assumes f: "is_argsort f"
  shows "mset (map (integral \<circ> snd) (sorting f inp)) = mset (map (integral \<circ> snd) inp)"
proof -
  let ?ints = "map integral (map snd inp)"
  let ?row = "neg_rows (map snd inp) ! 0"
  have "mset (f ?row) = mset [0..<length ?ints]"
    using argsort_perm [OF f, of ?row] by (simp add: length_neg_rows)
  then have "mset (map ((!) ?ints) (f ?row)) = mset ?ints"
    by (rule mset_map_nth_perm)
  then show ?thesis using sorting_integrals [OF f, of inp] by simp
qed

lemma sorted_rev_hd_Max:
  assumes "sorted (rev xs)" and "xs \<noteq> []"
  shows "hd xs = Max (set (xs :: real list))"
proof -
  have "\<forall>y\<in>set xs. y \<le> hd xs"
    using assms by (cases xs) (auto simp: sorted_append)
  then show ?thesis using assms(2) by (intro Max_eqI [symmetric]) auto
qed

lemma sorting_rank0_max:
  assumes f: "is_argsort f" and q: "q \<in> set (map snd (sorting f inp))" and r0: "integral_rank q = 0"
  shows "integral q = Max (set (map (integral \<circ> snd) inp))"
proof -
  let ?out = "sorting f inp"
  from q obtain i where i: "i < length inp" and qi: "q = snd (?out ! i)"
    by (auto simp: in_set_conv_nth)
  have "integral_rank q = int i" using sorting_integral_rank_position [OF f i] qi by simp
  then have i0: "i = 0" using r0 by simp
  have ne: "map (integral \<circ> snd) ?out \<noteq> []"
  proof
    assume "map (integral \<circ> snd) ?out = []"
    then have "length ?out = 0" by simp
    then show False using i by simp
  qed
  have "hd (map (integral \<circ> snd) ?out) = map (integral \<circ> snd) ?out ! 0"
    using ne by (rule hd_conv_nth)
  then have "integral q = hd (map (integral \<circ> snd) ?out)"
    using qi i0 i by simp
  also have "\<dots> = Max (set (map (integral \<circ> snd) ?out))"
    using sorted_rev_hd_Max [OF sorting_integrals_decreasing [OF f] ne] .
  also have "set (map (integral \<circ> snd) ?out) = set (map (integral \<circ> snd) inp)"
    using sorting_integrals_mset [OF f, of inp] by (rule mset_eq_setD)
  finally show ?thesis .
qed

text \<open>
  C5. For every argsort and every non-empty mapping of \<open>N\<close> peaks, the mapping returned
  by \<^verbatim>\<open>sorting\<close> is keyed \<open>0..N-1\<close>; each of the six rank columns written back
  (\<open>integral_rank\<close>, \<open>width_rank\<close>, \<open>height_rank\<close>, \<open>fwhm_rank\<close>, \<open>ahh_rank\<close>,
  \<open>ahw_rank\<close>) is a permutation of \<open>0..N-1\<close>; a peak with integral rank 0 exists and
  every such peak has the maximum integral of the input; and along the keys the integrals
  decrease, being the integrals of the input.
\<close>

theorem sorting_ranks_permutation:
  assumes "is_argsort asort" and "inp \<noteq> []"
  shows "map fst (sorting asort inp) = [0..<length inp] \<and>
         mset (map (integral_rank \<circ> snd) (sorting asort inp)) = mset (map int [0..<length inp]) \<and>
         mset (map (width_rank \<circ> snd) (sorting asort inp)) = mset (map int [0..<length inp]) \<and>
         mset (map (height_rank \<circ> snd) (sorting asort inp)) = mset (map int [0..<length inp]) \<and>
         mset (map (fwhm_rank \<circ> snd) (sorting asort inp)) = mset (map int [0..<length inp]) \<and>
         mset (map (ahh_rank \<circ> snd) (sorting asort inp)) = mset (map int [0..<length inp]) \<and>
         mset (map (ahw_rank \<circ> snd) (sorting asort inp)) = mset (map int [0..<length inp]) \<and>
         (\<forall>q \<in> set (map snd (sorting asort inp)).
            integral_rank q = 0 \<longrightarrow> integral q = Max (set (map (integral \<circ> snd) inp))) \<and>
         (\<exists>q \<in> set (map snd (sorting asort inp)). integral_rank q = 0) \<and>
         sorted (rev (map (integral \<circ> snd) (sorting asort inp))) \<and>
         mset (map (integral \<circ> snd) (sorting asort inp)) = mset (map (integral \<circ> snd) inp)"
proof -
  note f = assms(1)
  have ex: "\<exists>q \<in> set (map snd (sorting asort inp)). integral_rank q = 0"
  proof -
    have 0: "0 < length inp" using assms(2) by simp
    have "integral_rank (snd (sorting asort inp ! 0)) = 0"
      using sorting_integral_rank_position [OF f 0] by simp
    moreover have "snd (sorting asort inp ! 0) \<in> set (map snd (sorting asort inp))"
      using 0 by (metis length_map length_sorting nth_map nth_mem)
    ultimately show ?thesis by blast
  qed
  show ?thesis
    using map_fst_sorting [of asort inp]
      sorting_column_perm [OF f, of 0 integral_rank inp]
      sorting_column_perm [OF f, of 1 width_rank inp]
      sorting_column_perm [OF f, of 2 height_rank inp]
      sorting_column_perm [OF f, of 3 fwhm_rank inp]
      sorting_column_perm [OF f, of 4 ahh_rank inp]
      sorting_column_perm [OF f, of 5 ahw_rank inp]
      sorting_rank0_max [OF f, of _ inp] ex
      sorting_integrals_decreasing [OF f, of inp] sorting_integrals_mset [OF f, of inp]
    by (simp add: set_ranks_fields)
qed

lemma argsort_unique:
  assumes d: "distinct xs"
    and p: "mset p = mset [0..<length xs]" and q: "mset q = mset [0..<length xs]"
    and sp: "sorted (map ((!) xs) p)" and sq: "sorted (map ((!) xs) q)"
  shows "p = q"
proof -
  have "map ((!) xs) p = sort xs"
    using mset_map_nth_perm [OF p] sp by (metis properties_for_sort)
  moreover have "map ((!) xs) q = sort xs"
    using mset_map_nth_perm [OF q] sq by (metis properties_for_sort)
  ultimately have eq: "map ((!) xs) p = map ((!) xs) q" by simp
  have "inj_on ((!) xs) (set p \<union> set q)"
    using d perm_set [OF p] perm_set [OF q] by (intro inj_on_nth) auto
  then show ?thesis using eq by (simp add: inj_on_map_eq_map)
qed

lemma argsort_strictly_sorted_id:
  assumes f: "is_argsort f" and d: "distinct xs" and s: "sorted xs"
  shows "f xs = [0..<length xs]"
proof (rule argsort_unique [OF d argsort_perm [OF f] _ argsort_sorted [OF f]])
  show "mset [0..<length xs] = mset [0..<length xs]" by simp
  show "sorted (map ((!) xs) [0..<length xs])" using s by (simp add: map_nth)
qed

lemma rank_row_reorder:
  assumes f: "is_argsort f" and d: "distinct xs"
    and s: "mset s = mset [0..<length xs]" and i: "i < length xs"
  shows "rank_row f (map ((!) xs) s) ! i = rank_row f xs ! (s ! i)"
proof -
  let ?N = "length xs"
  let ?ys = "map ((!) xs) s"
  let ?p = "f xs" and ?p' = "f ?ys"
  let ?r = "rank_row f xs" and ?r' = "rank_row f ?ys"
  have ls: "length s = ?N" using s by (rule perm_length)
  have lys: "length ?ys = ?N" using ls by simp
  have p: "mset ?p = mset [0..<?N]" using argsort_perm [OF f] .
  have p': "mset ?p' = mset [0..<?N]" using argsort_perm [OF f, of ?ys] lys by simp
  have r: "mset ?r = mset [0..<?N]" using rank_row_perm [OF f] .
  have lp': "length ?p' = ?N" using p' by (rule perm_length)
  have sp': "mset (map ((!) s) ?p') = mset [0..<?N]"
    using mset_map_nth_perm [of ?p' s] p' ls s by simp
  have "sorted (map ((!) ?ys) ?p')" using argsort_sorted [OF f] .
  moreover have "map ((!) ?ys) ?p' = map ((!) xs) (map ((!) s) ?p')"
    using perm_set [OF p'] ls by simp
  ultimately have "sorted (map ((!) xs) (map ((!) s) ?p'))" by (simp only:)
  then have pp: "map ((!) s) ?p' = ?p"
    using argsort_unique [OF d sp' p _ argsort_sorted [OF f]] by simp
  have si: "s ! i < ?N" using perm_nth_lt [OF s i] .
  have rsi: "?r ! (s ! i) < ?N" using perm_nth_lt [OF r si] .
  have r'i: "?r' ! i < ?N"
    using perm_nth_lt [OF _ i, of ?r'] rank_row_perm [OF f, of ?ys] lys by simp
  have "?p ! (?r ! (s ! i)) = s ! i" using rank_row_right_inverse [OF f si] .
  moreover have "?p ! (?r ! (s ! i)) = s ! (?p' ! (?r ! (s ! i)))"
    using pp [symmetric] rsi lp' by simp
  ultimately have "s ! (?p' ! (?r ! (s ! i))) = s ! i" by simp
  moreover have "?p' ! (?r ! (s ! i)) < length s" using perm_nth_lt [OF p' rsi] ls by simp
  ultimately have "?p' ! (?r ! (s ! i)) = i"
    using nth_eq_iff_index_eq [OF perm_distinct [OF s]] i ls by simp
  moreover have "?p' ! (?r' ! i) = i"
    using rank_row_right_inverse [OF f, of i ?ys] i lys by simp
  ultimately have "?p' ! (?r ! (s ! i)) = ?p' ! (?r' ! i)" by simp
  then have "?r ! (s ! i) = ?r' ! i"
    using nth_eq_iff_index_eq [OF perm_distinct [OF p']] rsi r'i lp' by simp
  then show ?thesis by simp
qed

lemma sorting_snd_nth:
  assumes f: "is_argsort f" and i: "i < length inp"
  shows "map snd (sorting f inp) ! i =
     set_ranks (map (rank_row f) (neg_rows (map snd inp))) (map snd inp)
               (f (neg_rows (map snd inp) ! 0) ! i)"
  using i by (simp add: sorting_nth [OF f i])

lemma set_ranks_again:
  assumes "ps2 ! i = set_ranks rs ps j"
    and "rs2 ! 0 ! i = rs ! 0 ! j" and "rs2 ! 1 ! i = rs ! 1 ! j" and "rs2 ! 2 ! i = rs ! 2 ! j"
    and "rs2 ! 3 ! i = rs ! 3 ! j" and "rs2 ! 4 ! i = rs ! 4 ! j" and "rs2 ! 5 ! i = rs ! 5 ! j"
  shows "set_ranks rs2 ps2 i = set_ranks rs ps j"
  using assms by (simp add: set_ranks_def)

lemma neg_rows_sorting:
  assumes f: "is_argsort f" and k: "k < 6"
  shows "neg_rows (map snd (sorting f inp)) ! k =
         map ((!) (neg_rows (map snd inp) ! k)) (f (neg_rows (map snd inp) ! 0))"
proof -
  let ?ps = "map snd inp"
  let ?s = "f (neg_rows ?ps ! 0)"
  have s: "mset ?s = mset [0..<length inp]"
    using argsort_perm [OF f, of "neg_rows ?ps ! 0"] by (simp add: length_neg_rows)
  have ls: "length ?s = length inp" using s by (rule perm_length)
  have lt: "\<And>i. i < length inp \<Longrightarrow> ?s ! i < length inp" using perm_nth_lt [OF s] .
  have row: "map uminus (map m (map snd (sorting f inp))) = map ((!) (map uminus (map m ?ps))) ?s"
    if m: "\<And>rs ps el. m (set_ranks rs ps el) = m (ps ! el)" for m :: "peak \<Rightarrow> real"
  proof (rule nth_equalityI)
    show "length (map uminus (map m (map snd (sorting f inp)))) =
          length (map ((!) (map uminus (map m ?ps))) ?s)" using ls by simp
  next
    fix i assume "i < length (map uminus (map m (map snd (sorting f inp))))"
    then have i: "i < length inp" by simp
    have "m (map snd (sorting f inp) ! i) = m (?ps ! (?s ! i))"
      by (simp add: sorting_snd_nth [OF f i] m)
    then show "map uminus (map m (map snd (sorting f inp))) ! i =
               map ((!) (map uminus (map m ?ps))) ?s ! i"
      using i ls lt [OF i] by simp
  qed
  consider "k = 0" | "k = 1" | "k = 2" | "k = 3" | "k = 4" | "k = 5" using k by linarith
  then show ?thesis
    by cases (simp_all only: neg_rows_nth
        row [of integral, OF set_ranks_fields(8)] row [of width, OF set_ranks_fields(9)]
        row [of height, OF set_ranks_fields(10)] row [of fwhm, OF set_ranks_fields(11)]
        row [of ahh, OF set_ranks_fields(12)] row [of ahw, OF set_ranks_fields(13)])
qed

lemma distinct_map_uminus: "distinct (map m ps) \<Longrightarrow> distinct (map uminus (map m ps :: real list))"
  by (simp add: distinct_map inj_on_def)

text \<open>
  C6, as the code has it. For every argsort and every mapping of peaks in which no two
  peaks have the same value of a ranked metric (integral, width, height, fwhm, ahh, ahw),
  applying \<^verbatim>\<open>sorting\<close> to its own output returns that output: the same keys bound to
  the same peaks with the same rank values.
\<close>

theorem sorting_idempotent_no_ties:
  assumes f: "is_argsort asort"
    and d0: "distinct (map integral (map snd inp))"
    and d1: "distinct (map width (map snd inp))"
    and d2: "distinct (map height (map snd inp))"
    and d3: "distinct (map fwhm (map snd inp))"
    and d4: "distinct (map ahh (map snd inp))"
    and d5: "distinct (map ahw (map snd inp))"
  shows "sorting asort (sorting asort inp) = sorting asort inp"
proof (rule nth_equalityI)
  show "length (sorting asort (sorting asort inp)) = length (sorting asort inp)" by simp
next
  fix i assume "i < length (sorting asort (sorting asort inp))"
  then have i: "i < length inp" by simp
  let ?ps = "map snd inp"
  let ?out = "sorting asort inp"
  let ?ps2 = "map snd ?out"
  let ?s = "asort (neg_rows ?ps ! 0)"
  let ?R = "map (rank_row asort) (neg_rows ?ps)"
  let ?R2 = "map (rank_row asort) (neg_rows ?ps2)"
  have s: "mset ?s = mset [0..<length inp]"
    using argsort_perm [OF f, of "neg_rows ?ps ! 0"] by (simp add: length_neg_rows)
  have dist: "distinct (neg_rows ?ps ! k)" if k: "k < 6" for k
  proof -
    consider "k = 0" | "k = 1" | "k = 2" | "k = 3" | "k = 4" | "k = 5" using k by linarith
    then show ?thesis
      by cases (simp_all only: neg_rows_nth distinct_map_uminus d0 d1 d2 d3 d4 d5)
  qed
  have rk: "?R2 ! k ! i = ?R ! k ! (?s ! i)" if k: "k < 6" for k
  proof -
    have l6: "length (neg_rows ?ps) = 6" "length (neg_rows ?ps2) = 6"
      by (simp_all add: neg_rows_def)
    have "rank_row asort (map ((!) (neg_rows ?ps ! k)) ?s) ! i =
          rank_row asort (neg_rows ?ps ! k) ! (?s ! i)"
      using rank_row_reorder [OF f dist [OF k], of ?s i] s i length_neg_rows [OF k, of ?ps]
      by simp
    then show ?thesis using k l6 neg_rows_sorting [OF f k, of inp] by simp
  qed
  have s2: "asort (neg_rows ?ps2 ! 0) = [0..<length inp]"
  proof -
    let ?xs = "neg_rows ?ps ! 0"
    have eq: "neg_rows ?ps2 ! 0 = map ((!) ?xs) ?s" using neg_rows_sorting [OF f, of 0 inp] by simp
    have "sorted (map ((!) ?xs) ?s)" using argsort_sorted [OF f] .
    moreover have "distinct (map ((!) ?xs) ?s)"
      using perm_distinct [OF s] perm_set [OF s] dist [of 0] length_neg_rows [of 0 ?ps]
      by (auto simp: distinct_map intro!: inj_on_nth)
    ultimately have "asort (map ((!) ?xs) ?s) = [0..<length (map ((!) ?xs) ?s)]"
      using argsort_strictly_sorted_id [OF f] by blast
    then show ?thesis using eq perm_length [OF s] by simp
  qed
  have i2: "i < length ?out" using i by simp
  have "sorting asort ?out ! i = (i, set_ranks ?R2 ?ps2 (asort (neg_rows ?ps2 ! 0) ! i))"
    using sorting_nth [OF f i2] .
  also have "\<dots> = (i, set_ranks ?R2 ?ps2 i)" using s2 i by simp
  also have "set_ranks ?R2 ?ps2 i = set_ranks ?R ?ps (?s ! i)"
    using sorting_snd_nth [OF f i] rk [of 0] rk [of 1] rk [of 2] rk [of 3] rk [of 4] rk [of 5]
    by (intro set_ranks_again) simp_all
  also have "(i, set_ranks ?R ?ps (?s ! i)) = ?out ! i"
    using sorting_nth [OF f i] by simp
  finally show "sorting asort (sorting asort inp) ! i = sorting asort inp ! i" .
qed

lemma argsort_stable_valid: "is_argsort argsort_stable"
  unfolding is_argsort_def
proof (intro allI conjI)
  fix xs :: "real list"
  let ?zs = "zip xs [0..<length xs]"
  have "mset (argsort_stable xs) = image_mset snd (mset (sort_key fst ?zs))"
    by (simp add: argsort_stable_def)
  also have "\<dots> = mset (map snd ?zs)" by (simp only: mset_sort mset_map)
  also have "map snd ?zs = [0..<length xs]" by (simp add: map_snd_zip)
  finally show "mset (argsort_stable xs) = mset [0..<length xs]" .
  have "\<And>z. z \<in> set (sort_key fst ?zs) \<Longrightarrow> xs ! snd z = fst z"
    by (auto simp: set_zip)
  then have "map (\<lambda>i. xs ! i) (argsort_stable xs) = map fst (sort_key fst ?zs)"
    by (simp add: argsort_stable_def)
  then show "sorted (map (\<lambda>i. xs ! i) (argsort_stable xs))"
    by (simp add: sorted_sort_key)
qed

lemma argsort2: "argsort_stable [a, b] = (if b < a then [1, 0] else [0, 1])"
  by (simp add: argsort_stable_def)

lemma argsort3_ex: "argsort_stable [-12, -30, -20] = [1,2,0]"
  by (simp add: argsort_stable_def)

lemma sorting_three_peaks:
  "sorting argsort_stable three_peaks =
     [(0, (mk_peak 30 5 2 2)\<lparr>integral_rank := 0, width_rank := 0, height_rank := 2,
             fwhm_rank := 1, ahh_rank := 0, ahw_rank := 0, num := 0\<rparr>),
      (1, (mk_peak 20 4 10 3)\<lparr>integral_rank := 1, width_rank := 1, height_rank := 0,
             fwhm_rank := 0, ahh_rank := 2, ahw_rank := 2, num := 1\<rparr>),
      (2, (mk_peak 12 3 4 1)\<lparr>integral_rank := 2, width_rank := 2, height_rank := 1,
             fwhm_rank := 2, ahh_rank := 1, ahw_rank := 1, num := 2\<rparr>)]"
  by (simp add: sorting_def neg_rows_def three_peaks_def Let_def rank_row_def argsort_stable_def
                set_ranks_def mk_peak_def peak0_def)

text \<open>
  C5 on \<open>three_peaks\<close> (integrals 12, 30, 20) with the stable argsort.
\<close>

theorem sorting_ranks_permutation_witness:
  "is_argsort argsort_stable \<and> three_peaks \<noteq> [] \<and>
   map fst (sorting argsort_stable three_peaks) = [0, 1, 2] \<and>
   map (integral_rank \<circ> snd) (sorting argsort_stable three_peaks) = [0, 1, 2] \<and>
   map (width_rank \<circ> snd) (sorting argsort_stable three_peaks) = [0, 1, 2] \<and>
   map (height_rank \<circ> snd) (sorting argsort_stable three_peaks) = [2, 0, 1] \<and>
   map (integral \<circ> snd) (sorting argsort_stable three_peaks) = [30, 20, 12]"
proof -
  have ne: "three_peaks \<noteq> []" by (simp add: three_peaks_def)
  have "map fst (sorting argsort_stable three_peaks) = [0..<length three_peaks]"
    using sorting_ranks_permutation [OF argsort_stable_valid ne] by (rule conjunct1)
  then have keys: "map fst (sorting argsort_stable three_peaks) = [0, 1, 2]"
    by (simp add: three_peaks_def upt_conv_Cons)
  have cols: "map (integral_rank \<circ> snd) (sorting argsort_stable three_peaks) = [0, 1, 2]"
    "map (width_rank \<circ> snd) (sorting argsort_stable three_peaks) = [0, 1, 2]"
    "map (height_rank \<circ> snd) (sorting argsort_stable three_peaks) = [2, 0, 1]"
    "map (integral \<circ> snd) (sorting argsort_stable three_peaks) = [30, 20, 12]"
    by (simp_all add: sorting_three_peaks mk_peak_def)
  show ?thesis using argsort_stable_valid ne keys cols by simp
qed

text \<open>
  C6 on \<open>three_peaks\<close>, where no two peaks tie on a metric.
\<close>

theorem sorting_idempotent_no_ties_witness:
  "is_argsort argsort_stable \<and>
   distinct (map integral (map snd three_peaks)) \<and> distinct (map width (map snd three_peaks)) \<and>
   distinct (map height (map snd three_peaks)) \<and> distinct (map fwhm (map snd three_peaks)) \<and>
   distinct (map ahh (map snd three_peaks)) \<and> distinct (map ahw (map snd three_peaks)) \<and>
   sorting argsort_stable (sorting argsort_stable three_peaks) = sorting argsort_stable three_peaks"
proof -
  have d: "distinct (map integral (map snd three_peaks))" "distinct (map width (map snd three_peaks))"
    "distinct (map height (map snd three_peaks))" "distinct (map fwhm (map snd three_peaks))"
    "distinct (map ahh (map snd three_peaks))" "distinct (map ahw (map snd three_peaks))"
    by (simp_all add: three_peaks_def mk_peak_def peak0_def)
  show ?thesis
    using sorting_idempotent_no_ties [OF argsort_stable_valid d] argsort_stable_valid d
    by simp
qed

lemma sorting_two_peaks:
  "sorting argsort_stable two_peaks =
     [(0, (mk_peak 20 5 5 2)\<lparr>integral_rank := 0, width_rank := 1, height_rank := 0,
             fwhm_rank := 0, ahh_rank := 1, ahw_rank := 1, num := 0\<rparr>),
      (1, (mk_peak 10 5 2 1)\<lparr>integral_rank := 1, width_rank := 0, height_rank := 1,
             fwhm_rank := 1, ahh_rank := 0, ahw_rank := 0, num := 1\<rparr>)]"
  by (simp add: sorting_def neg_rows_def two_peaks_def Let_def rank_row_def argsort2 set_ranks_def
                mk_peak_def peak0_def)

text \<open>
  C6 as the spec states it fails on \<open>two_peaks\<close>: two peaks of equal width 5, the first
  with the smaller integral. The first pass gives the later peak width rank 1 and moves it
  to key 0; the second pass, reading the peaks in their new order, gives it width rank 0.
\<close>

theorem sorting_not_idempotent_counterexample:
  "map (width_rank \<circ> snd) (sorting argsort_stable two_peaks) = [1, 0] \<and>
   map (width_rank \<circ> snd) (sorting argsort_stable (sorting argsort_stable two_peaks)) = [0, 1] \<and>
   sorting argsort_stable (sorting argsort_stable two_peaks) \<noteq> sorting argsort_stable two_peaks"
  by (simp add: sorting_two_peaks)
    (simp add: sorting_def neg_rows_def Let_def rank_row_def argsort2 set_ranks_def mk_peak_def
               peak0_def)

lemma mset_pair_cases:
  assumes "mset xs = mset [0, Suc 0]"
  shows "xs = [0, Suc 0] \<or> xs = [Suc 0, 0]"
proof -
  have l: "length xs = 2" using mset_eq_length [OF assms] by simp
  have s: "set xs = {0, Suc 0}" using mset_eq_setD [OF assms] by simp
  have d: "distinct xs" using mset_eq_imp_distinct_iff [OF assms] by simp
  from l obtain x y where xs: "xs = [x, y]"
    by (cases xs; cases "tl xs"; cases "tl (tl xs)") auto
  show ?thesis using s d unfolding xs by (auto simp: doubleton_eq_iff)
qed

lemma argsort_pair:
  assumes f: "is_argsort f"
  shows "f [a, b] = [0, 1] \<or> f [a, b] = [1, 0]"
    and "a < b \<Longrightarrow> f [a, b] = [0, 1]"
    and "b < a \<Longrightarrow> f [a, b] = [1, 0]"
proof -
  have m: "mset (f [a, b]) = mset [0, Suc 0]"
    using argsort_perm [OF f, of "[a, b]"] by (simp add: upt_conv_Cons)
  have s: "sorted (map ((!) [a, b]) (f [a, b]))" using argsort_sorted [OF f] .
  show c: "f [a, b] = [0, 1] \<or> f [a, b] = [1, 0]" using mset_pair_cases [OF m] by simp
  show "a < b \<Longrightarrow> f [a, b] = [0, 1]" using c s by auto
  show "b < a \<Longrightarrow> f [a, b] = [1, 0]" using c s by auto
qed

text \<open>
  The second pass changes the width ranks of \<open>two_peaks\<close> whichever way the argsort
  breaks ties: the tie between the two widths is broken by position, and the first pass has
  swapped the positions.
\<close>

lemma sorting_two_peaks_any_argsort:
  assumes f: "is_argsort f"
  shows "map (width_rank \<circ> snd) (sorting f (sorting f two_peaks)) \<noteq>
         map (width_rank \<circ> snd) (sorting f two_peaks)"
proof -
  note lt = argsort_pair(2) [OF f] and gt = argsort_pair(3) [OF f]
  consider "f [- 5, - 5] = [0, 1]" | "f [- 5, - 5] = [1, 0]"
    using argsort_pair(1) [OF f, of "- 5" "- 5"] by blast
  then show ?thesis
  proof cases
    case 1
    have a: "sorting f two_peaks =
     [(0, (mk_peak 20 5 5 2)\<lparr>integral_rank := 0, width_rank := 1, height_rank := 0,
             fwhm_rank := 0, ahh_rank := 1, ahw_rank := 1, num := 0\<rparr>),
      (1, (mk_peak 10 5 2 1)\<lparr>integral_rank := 1, width_rank := 0, height_rank := 1,
             fwhm_rank := 1, ahh_rank := 0, ahw_rank := 0, num := 1\<rparr>)]"
      by (simp add: sorting_def neg_rows_def two_peaks_def Let_def rank_row_def set_ranks_def
                mk_peak_def peak0_def lt gt 1)
    show ?thesis
      unfolding a
      by (simp add: sorting_def neg_rows_def Let_def rank_row_def set_ranks_def
                mk_peak_def peak0_def lt gt 1)
  next
    case 2
    have a: "sorting f two_peaks =
     [(0, (mk_peak 20 5 5 2)\<lparr>integral_rank := 0, width_rank := 0, height_rank := 0,
             fwhm_rank := 0, ahh_rank := 1, ahw_rank := 1, num := 0\<rparr>),
      (1, (mk_peak 10 5 2 1)\<lparr>integral_rank := 1, width_rank := 1, height_rank := 1,
             fwhm_rank := 1, ahh_rank := 0, ahw_rank := 0, num := 1\<rparr>)]"
      by (simp add: sorting_def neg_rows_def two_peaks_def Let_def rank_row_def set_ranks_def
                mk_peak_def peak0_def lt gt 2)
    show ?thesis
      unfolding a
      by (simp add: sorting_def neg_rows_def Let_def rank_row_def set_ranks_def
                mk_peak_def peak0_def lt gt 2)
  qed
qed

section \<open>propsisot with one candidate\<close>

text \<open>
  If, for a spectrum with exactly one candidate, the radius expression of the
  single-candidate branch raises an exception \<open>e\<close>, then \<^verbatim>\<open>propsisot\<close> logs \<open>e\<close> for
  candidate 0 and returns the empty mapping. Whether that expression raises is decided by
  numpy and by the type of the entries of \<^verbatim>\<open>mai\<close>, neither of which this source file
  fixes.
\<close>

lemma propsisot_single_raises:
  assumes "length (mai ent) = 1"
    and "single (mai ent ! 0) (length (spectrum ent)) (np_val (mai ent) (- 1)) (prangemax ps) = Inl e"
  shows "propsisot argsort single ext ent ps setx sink =
           ([], sink @ [(e, ''propsisot'', fullname ent, 0)])"
  using assms
  by (simp add: propsisot_def propsisot_prange_def sorting_def err_add_def Let_def)

end
